theory Spec2Isabelle
  imports Complex_Main "HOL-Library.Multiset" "HOL-Library.AList"
begin

text \<open>
  A model of the two engines of the swarm protocol: the task distributor, which collects
  bids for a task, scores them and assigns agents, and the consensus engine, which tallies
  reputation-weighted votes on a proposal and adjusts reputations when it is decided. The
  functions keep the names they have in the TypeScript source; a record field whose name
  is used by two interfaces carries the interface as a suffix.
\<close>

section \<open>Numbers\<close>

text \<open>
  The source computes with the \<open>number\<close> type of TypeScript. Inputs (weights, rewards,
  timestamps, reputation scores) are taken to be finite and are modelled exactly, as
  rationals; rounding is not modelled. A division can leave the finite numbers: \<open>x / 0\<close> is
  \<open>Infinity\<close>, \<open>-Infinity\<close> or \<open>NaN\<close>. These three values and the arithmetic on them
  are written out, so that no division by zero is hidden in a total HOL operator. A zero
  denominator is the positive zero (the source obtains its denominators by additions and
  subtractions of finite numbers).
\<close>

datatype jsnum = Num rat | PInf | NInf | NaN

fun js_div :: "rat \<Rightarrow> rat \<Rightarrow> jsnum" where
  "js_div a b =
     (if b \<noteq> 0 then Num (a / b)
      else if 0 < a then PInf
      else if a < 0 then NInf
      else NaN)"

fun js_neg :: "jsnum \<Rightarrow> jsnum" where
  "js_neg (Num a) = Num (- a)"
| "js_neg PInf = NInf"
| "js_neg NInf = PInf"
| "js_neg NaN = NaN"

fun js_add :: "jsnum \<Rightarrow> jsnum \<Rightarrow> jsnum" where
  "js_add (Num a) (Num b) = Num (a + b)"
| "js_add NaN y = NaN"
| "js_add x NaN = NaN"
| "js_add PInf NInf = NaN"
| "js_add NInf PInf = NaN"
| "js_add PInf y = PInf"
| "js_add x PInf = PInf"
| "js_add NInf y = NInf"
| "js_add x NInf = NInf"

definition js_sub :: "jsnum \<Rightarrow> jsnum \<Rightarrow> jsnum" where
  "js_sub x y = js_add x (js_neg y)"

fun js_mul :: "jsnum \<Rightarrow> jsnum \<Rightarrow> jsnum" where
  "js_mul (Num a) (Num b) = Num (a * b)"
| "js_mul NaN y = NaN"
| "js_mul x NaN = NaN"
| "js_mul (Num a) PInf = (if a = 0 then NaN else if 0 < a then PInf else NInf)"
| "js_mul (Num a) NInf = (if a = 0 then NaN else if 0 < a then NInf else PInf)"
| "js_mul PInf (Num b) = (if b = 0 then NaN else if 0 < b then PInf else NInf)"
| "js_mul NInf (Num b) = (if b = 0 then NaN else if 0 < b then NInf else PInf)"
| "js_mul PInf PInf = PInf"
| "js_mul NInf NInf = PInf"
| "js_mul PInf NInf = NInf"
| "js_mul NInf PInf = NInf"

text \<open>\<open>Math.min\<close> and \<open>Math.max\<close>: \<open>NaN\<close> as soon as one argument is \<open>NaN\<close>.\<close>

fun js_min :: "jsnum \<Rightarrow> jsnum \<Rightarrow> jsnum" where
  "js_min (Num a) (Num b) = Num (min a b)"
| "js_min NaN y = NaN"
| "js_min x NaN = NaN"
| "js_min NInf y = NInf"
| "js_min x NInf = NInf"
| "js_min PInf y = y"
| "js_min x PInf = x"

fun js_max :: "jsnum \<Rightarrow> jsnum \<Rightarrow> jsnum" where
  "js_max (Num a) (Num b) = Num (max a b)"
| "js_max NaN y = NaN"
| "js_max x NaN = NaN"
| "js_max PInf y = PInf"
| "js_max x PInf = PInf"
| "js_max NInf y = y"
| "js_max x NInf = x"

text \<open>The comparisons greater-than and greater-or-equal: false as soon as one side is \<open>NaN\<close>.\<close>

fun js_gt :: "jsnum \<Rightarrow> jsnum \<Rightarrow> bool" where
  "js_gt (Num a) (Num b) = (b < a)"
| "js_gt NaN y = False"
| "js_gt x NaN = False"
| "js_gt PInf PInf = False"
| "js_gt PInf y = True"
| "js_gt x PInf = False"
| "js_gt NInf y = False"
| "js_gt x NInf = True"

fun js_ge :: "jsnum \<Rightarrow> jsnum \<Rightarrow> bool" where
  "js_ge (Num a) (Num b) = (b \<le> a)"
| "js_ge NaN y = False"
| "js_ge x NaN = False"
| "js_ge PInf y = True"
| "js_ge x PInf = False"
| "js_ge x NInf = True"
| "js_ge NInf y = False"

fun is_finite :: "jsnum \<Rightarrow> bool" where
  "is_finite (Num a) = True"
| "is_finite x = False"

fun the_num :: "jsnum \<Rightarrow> rat" where
  "the_num (Num a) = a"
| "the_num x = 0"


section \<open>Task distribution: data model\<close>

datatype priority = Low | Medium | High | Critical

record Task =
  id_task :: string
  description :: string
  requiredCapabilities :: "string list"
  bounty :: rat
  deadline_task :: rat
  requester :: string
  minAgents :: "rat option"
  maxAgents :: "rat option"
  priority :: "priority option"

record AgentBid =
  agentId :: string
  taskId_bid :: string
  estimatedTime :: rat
  requestedReward :: rat
  confidence_bid :: rat
  capabilities :: "string list"
  reputation :: rat

text \<open>The objects \<open>{ ...bid, score }\<close> built by \<open>scoreBids\<close>: a bid with one more field.\<close>

record ScoredBid = AgentBid +
  score_bid :: jsnum

record TaskAssignment =
  taskId_asg :: string
  assignedAgents :: "string list"
  totalReward :: rat
  deadline_asg :: rat

record AgentProfile =
  accountId_prof :: string
  capabilities_prof :: "string list"
  reputation_prof :: rat
  activeTaskCount :: int
  completedTaskCount :: int
  successRate :: rat
  averageCompletionTime :: rat
  specializations :: "string list option"

text \<open>What \<open>emit\<close> hands to the observers, in the order of emission.\<close>

datatype td_event =
    TaskAnnounced Task
  | BidSubmitted AgentBid
  | TaskAssignmentFailed string string
  | TaskAssigned TaskAssignment
  | TaskCompleted string string bool
  | TaskCancelled string string

text \<open>
  The errors thrown by the engine, named as the specification names them: \<open>UnknownTask\<close>
  is \<open>Error('Task not found')\<close>, \<open>DuplicateBid\<close> is \<open>Error('Agent already submitted a
  bid')\<close>, \<open>CapabilityMismatch\<close> is \<open>Error('Agent lacks required capabilities')\<close> and
  \<open>OnChainFailed\<close> is whatever the ledger call throws.
\<close>

datatype td_error = UnknownTask | DuplicateBid | CapabilityMismatch | OnChainFailed

record TaskDistributor =
  taskQueue :: "string \<rightharpoonup> Task"
  agentBids :: "string \<rightharpoonup> AgentBid list"
  agentProfiles :: "string \<rightharpoonup> AgentProfile"
  activeAssignments :: "string \<rightharpoonup> TaskAssignment"
  events :: "td_event list"

definition emit :: "td_event \<Rightarrow> TaskDistributor \<Rightarrow> TaskDistributor" where
  "emit e st = st\<lparr>events := events st @ [e]\<rparr>"

text \<open>The scoring weights of \<open>config\<close>.\<close>

definition reputationWeight :: rat where "reputationWeight = 4 / 10"
definition confidenceWeight :: rat where "confidenceWeight = 3 / 10"
definition priceWeight :: rat where "priceWeight = 3 / 10"
definition capabilityMatchBonus :: rat where "capabilityMatchBonus = 2 / 10"

section \<open>Task distribution: operations\<close>

definition announceTask :: "TaskDistributor \<Rightarrow> Task \<Rightarrow> TaskDistributor" where
  "announceTask st task =
     emit (TaskAnnounced task)
       (st\<lparr>taskQueue := (taskQueue st)(id_task task \<mapsto> task),
           agentBids := (agentBids st)(id_task task \<mapsto> [])\<rparr>)"

definition validateCapabilities :: "string list \<Rightarrow> string list \<Rightarrow> bool" where
  "validateCapabilities agentCapabilities required =
     list_all (\<lambda>cap. cap \<in> set agentCapabilities) required"

text \<open>
  \<open>submitBid\<close> throws before it writes anything. The model returns the error, if any,
  next to the state the engine is left in.
\<close>

definition submitBid :: "TaskDistributor \<Rightarrow> AgentBid \<Rightarrow> td_error option \<times> TaskDistributor" where
  "submitBid st bid =
     (case taskQueue st (taskId_bid bid) of
        None \<Rightarrow> (Some UnknownTask, st)
      | Some task \<Rightarrow>
          (let bids = (case agentBids st (taskId_bid bid) of None \<Rightarrow> [] | Some bs \<Rightarrow> bs) in
           if find (\<lambda>b. agentId b = agentId bid) bids \<noteq> None then (Some DuplicateBid, st)
           else if \<not> validateCapabilities (capabilities bid) (requiredCapabilities task)
             then (Some CapabilityMismatch, st)
           else (None,
                 emit (BidSubmitted bid)
                   (st\<lparr>agentBids := (agentBids st)(taskId_bid bid \<mapsto> bids @ [bid])\<rparr>))))"

definition calculateCapabilityScore :: "string list \<Rightarrow> string list \<Rightarrow> jsnum" where
  "calculateCapabilityScore agentCapabilities required =
     (let matchCount = length (filter (\<lambda>cap. cap \<in> set required) agentCapabilities);
          extraCount = int (length agentCapabilities) - int matchCount;
          matchScore = js_div (of_nat matchCount) (of_nat (length required));
          extraBonus = js_min (Num (of_int extraCount * (5 / 100))) (Num (2 / 10))
      in js_min (js_add matchScore extraBonus) (Num 1))"

text \<open>
  The body of the callback of \<open>bids.map\<close> in \<open>scoreBids\<close>; \<open>now\<close> is the value of
  \<open>Date.now()\<close>. The score is accumulated in the order of the source.
\<close>

definition scoreBid :: "(string \<rightharpoonup> AgentProfile) \<Rightarrow> rat \<Rightarrow> Task \<Rightarrow> AgentBid \<Rightarrow> jsnum" where
  "scoreBid profiles now task bid =
     (let score0 = Num 0;
          reputationScore = js_min (js_div (reputation bid) 100) (Num 1);
          score1 = js_add score0 (js_mul reputationScore (Num reputationWeight));
          score2 = js_add score1 (js_mul (Num (confidence_bid bid)) (Num confidenceWeight));
          priceRatio = js_sub (Num 1) (js_div (requestedReward bid) (bounty task));
          score3 = js_add score2 (js_mul (js_max (Num 0) priceRatio) (Num priceWeight));
          capabilityScore = calculateCapabilityScore (capabilities bid) (requiredCapabilities task);
          score4 = js_add score3 (js_mul capabilityScore (Num capabilityMatchBonus));
          timeScore = js_max (Num 0)
                        (js_sub (Num 1) (js_div (estimatedTime bid) (deadline_task task - now)));
          score5 = js_add score4 (js_mul timeScore (Num (1 / 10)))
      in (case profiles (agentId bid) of
            None \<Rightarrow> score5
          | Some agentProfile \<Rightarrow>
              if activeTaskCount agentProfile > 3 then js_mul score5 (Num (8 / 10)) else score5))"

definition withScore :: "(string \<rightharpoonup> AgentProfile) \<Rightarrow> rat \<Rightarrow> Task \<Rightarrow> AgentBid \<Rightarrow> ScoredBid" where
  "withScore profiles now task bid =
     AgentBid.extend bid (ScoredBid.fields (scoreBid profiles now task bid))"

text \<open>
  \<open>sort((a, b) => b.score - a.score)\<close>. \<open>Array.prototype.sort\<close> belongs to the
  language, not to the repository, and the language fixes its result only for a consistent
  comparator: then the result is the stable sorted arrangement of the array, which is
  unique. For any other comparator (one that returns \<open>NaN\<close>, for instance) the order of
  the result is left to the implementation. The sort is therefore a parameter \<open>srt\<close> of
  the model, and \<open>sort_contract\<close> says what the language promises of it.

  In the words of the language definition, with \<open>a < b\<close> for a negative value of the
  comparator, \<open>a = b\<close> for the value zero and \<open>a > b\<close> for a positive value: a comparator
  is consistent for a set of values when it never returns \<open>NaN\<close> on them, \<open>=\<close> is
  reflexive, symmetric and transitive, and \<open><\<close> and \<open>>\<close> are transitive.
\<close>

definition comparator :: "ScoredBid \<Rightarrow> ScoredBid \<Rightarrow> jsnum" where
  "comparator a b = js_sub (score_bid b) (score_bid a)"

definition consistent_comparator :: "('a \<Rightarrow> 'a \<Rightarrow> jsnum) \<Rightarrow> 'a set \<Rightarrow> bool" where
  "consistent_comparator cmp S =
     (\<forall>a \<in> S. \<forall>b \<in> S. \<forall>c \<in> S.
        cmp a b \<noteq> NaN
        \<and> cmp a a = Num 0
        \<and> (cmp a b = Num 0 \<longrightarrow> cmp b a = Num 0)
        \<and> (cmp a b = Num 0 \<and> cmp b c = Num 0 \<longrightarrow> cmp a c = Num 0)
        \<and> (js_gt (Num 0) (cmp a b) \<and> js_gt (Num 0) (cmp b c) \<longrightarrow> js_gt (Num 0) (cmp a c))
        \<and> (js_gt (cmp a b) (Num 0) \<and> js_gt (cmp b c) (Num 0) \<longrightarrow> js_gt (cmp a c) (Num 0)))"

text \<open>
  The stable sorted arrangement, computed by insertion: an element goes behind the
  elements it compares greater than, and stays in front of the first one it does not.
  What this function returns for a comparator that is not consistent has no meaning for
  the source; it also serves as one sort that keeps the contract.
\<close>

fun insert_sorted :: "('a \<Rightarrow> 'a \<Rightarrow> jsnum) \<Rightarrow> 'a \<Rightarrow> 'a list \<Rightarrow> 'a list" where
  "insert_sorted cmp x [] = [x]"
| "insert_sorted cmp x (y # ys) =
     (if js_gt (cmp x y) (Num 0) then y # insert_sorted cmp x ys else x # y # ys)"

definition stable_sorted :: "('a \<Rightarrow> 'a \<Rightarrow> jsnum) \<Rightarrow> 'a list \<Rightarrow> 'a list" where
  "stable_sorted cmp xs = foldr (insert_sorted cmp) xs []"

type_synonym 'a array_sort = "('a \<Rightarrow> 'a \<Rightarrow> jsnum) \<Rightarrow> 'a list \<Rightarrow> 'a list"

definition sort_contract :: "'a array_sort \<Rightarrow> bool" where
  "sort_contract srt =
     (\<forall>cmp xs. mset (srt cmp xs) = mset xs
        \<and> (consistent_comparator cmp (set xs) \<longrightarrow> srt cmp xs = stable_sorted cmp xs))"

definition scoreBids ::
  "ScoredBid array_sort \<Rightarrow> (string \<rightharpoonup> AgentProfile) \<Rightarrow> rat \<Rightarrow> AgentBid list \<Rightarrow> Task
     \<Rightarrow> ScoredBid list" where
  "scoreBids srt profiles now bids task =
     srt comparator (map (withScore profiles now task) bids)"

text \<open>
  \<open>xs.slice(0, e)\<close>: the end is truncated towards zero; a negative end counts from the
  end of the array; the result stays inside the array.
\<close>

definition slice_to :: "'a list \<Rightarrow> rat \<Rightarrow> 'a list" where
  "slice_to xs e =
     (let len = int (length xs);
          k = (if e < 0 then \<lceil>e\<rceil> else \<lfloor>e\<rfloor>);
          final = (if k < 0 then max (len + k) 0 else min k len)
      in take (nat final) xs)"

text \<open>
  The loop of \<open>selectOptimalAgents\<close>, with its two accumulators \<open>selected\<close> and
  \<open>usedCapabilities\<close>; \<open>break\<close> leaves the rest of the list unread. The two bounds are
  numbers like any other: nothing in the source makes them whole or positive.
\<close>

fun select_loop :: "rat \<Rightarrow> rat \<Rightarrow> ScoredBid list \<Rightarrow> ScoredBid list \<times> string set
                     \<Rightarrow> ScoredBid list \<times> string set" where
  "select_loop minA maxA [] (selected, used) = (selected, used)"
| "select_loop minA maxA (bid # rest) (selected, used) =
     (if of_nat (length selected) \<ge> maxA then (selected, used)
      else
        (let newCapabilities = filter (\<lambda>cap. cap \<notin> used) (capabilities bid) in
         if of_nat (length selected) < minA \<or> length newCapabilities > 0
            \<or> js_gt (score_bid bid) (Num (8 / 10))
         then select_loop minA maxA rest (selected @ [bid], used \<union> set (capabilities bid))
         else select_loop minA maxA rest (selected, used)))"

definition selectOptimalAgents :: "ScoredBid list \<Rightarrow> rat \<Rightarrow> rat \<Rightarrow> ScoredBid list" where
  "selectOptimalAgents scoredBids minA maxA =
     (let selected = fst (select_loop minA maxA scoredBids ([], {})) in
      if of_nat (length selected) < minA \<and> of_nat (length scoredBids) \<ge> minA
      then slice_to scoredBids minA
      else selected)"

definition updateAgentTaskCount :: "TaskDistributor \<Rightarrow> string \<Rightarrow> int \<Rightarrow> TaskDistributor" where
  "updateAgentTaskCount st a delta =
     (case agentProfiles st a of
        None \<Rightarrow> st
      | Some profile \<Rightarrow>
          st\<lparr>agentProfiles :=
               (agentProfiles st)(a \<mapsto> profile\<lparr>activeTaskCount := activeTaskCount profile + delta\<rparr>)\<rparr>)"

text \<open>
  \<open>x || d\<close> on an optional number: the default when the field is absent or zero. Any
  other number, a negative one too, is kept.
\<close>

definition or_default :: "rat option \<Rightarrow> rat \<Rightarrow> rat" where
  "or_default x d = (case x of None \<Rightarrow> d | Some n \<Rightarrow> if n = 0 then d else n)"

text \<open>
  \<open>evaluateBidsAndAssign\<close>. The call to the ledger (\<open>assignTaskOnChain\<close>) is outside the
  engine: \<open>onChainOk\<close> says whether it succeeds. When it throws, the function stops there,
  after the assignment was stored.
\<close>

definition evaluateBidsAndAssign ::
  "ScoredBid array_sort \<Rightarrow> TaskDistributor \<Rightarrow> rat \<Rightarrow> bool \<Rightarrow> string
     \<Rightarrow> td_error option \<times> TaskDistributor" where
  "evaluateBidsAndAssign srt st now onChainOk tid =
     (case (taskQueue st tid, agentBids st tid) of
        (Some task, Some (b # bs)) \<Rightarrow>
          (let bids = b # bs;
               scoredBids = scoreBids srt (agentProfiles st) now bids task;
               selectedAgents = selectOptimalAgents scoredBids
                                  (or_default (minAgents task) 1) (or_default (maxAgents task) 5)
           in if length selectedAgents = 0
              then (None, emit (TaskAssignmentFailed tid ''No suitable agents found'') st)
              else
                (let assignment = \<lparr>taskId_asg = tid,
                                   assignedAgents = map agentId selectedAgents,
                                   totalReward = bounty task,
                                   deadline_asg = deadline_task task\<rparr>;
                     st1 = st\<lparr>activeAssignments := (activeAssignments st)(tid \<mapsto> assignment)\<rparr>
                 in if \<not> onChainOk then (Some OnChainFailed, st1)
                    else
                      (let st2 = fold (\<lambda>a s. updateAgentTaskCount s a 1)
                                   (assignedAgents assignment) st1;
                           st3 = emit (TaskAssigned assignment) st2
                       in (None, st3\<lparr>taskQueue := (taskQueue st3)(tid := None),
                                      agentBids := (agentBids st3)(tid := None)\<rparr>))))
      | _ \<Rightarrow> (None, emit (TaskAssignmentFailed tid ''No valid bids received'') st))"

definition cancelTask :: "TaskDistributor \<Rightarrow> string \<Rightarrow> string \<Rightarrow> TaskDistributor" where
  "cancelTask st tid reason =
     (let st1 = st\<lparr>taskQueue := (taskQueue st)(tid := None),
                   agentBids := (agentBids st)(tid := None)\<rparr>;
          st2 = (case activeAssignments st1 tid of
                   None \<Rightarrow> st1
                 | Some assignment \<Rightarrow>
                     (let s = fold (\<lambda>a s. updateAgentTaskCount s a (- 1))
                                (assignedAgents assignment) st1
                      in s\<lparr>activeAssignments := (activeAssignments s)(tid := None)\<rparr>))
      in emit (TaskCancelled tid reason) st2)"


section \<open>Consensus: data model\<close>

record Vote =
  voter :: string
  weight :: rat
  timestamp_vote :: rat
  reason :: "string option"

datatype status = Pending | Accepted | Rejected | Expired

text \<open>
  A \<open>Map<string, Vote>\<close> keeps its keys in insertion order: an association list, written
  with \<open>AList.update\<close> (in place for a key that is there, at the end for a new one).
\<close>

type_synonym votes = "(string \<times> Vote) list"

record ConsensusProposal =
  id_prop :: string
  taskId_prop :: string
  solution :: string
  proposer :: string
  supporters :: votes
  rejectors :: votes
  confidence_prop :: rat
  timestamp_prop :: "rat option"
  deadline_prop :: rat
  status :: status

record ConsensusConfig =
  votingThreshold :: rat
  votingPeriod :: rat
  minParticipants :: nat
  reputationWeighting :: bool

record AgentReputation =
  accountId :: string
  score :: rat
  tasksCompleted :: nat
  consensusParticipation :: nat

record ConsensusResult =
  accepted :: bool
  supportPercentage :: rat
  totalVotes :: nat

datatype ce_event =
    ProposalCreated ConsensusProposal
  | ProposalReceived ConsensusProposal
  | VoteReceived string Vote bool
  | ConsensusReached string string bool rat nat "string option"
  | ReputationUpdated string rat rat

text \<open>
  The errors of \<open>voteOnProposal\<close>, in the order of its checks: \<open>Error('Proposal not
  found')\<close>, \<open>Error('Proposal is no longer pending')\<close>, \<open>Error('Voting period has
  expired')\<close>, \<open>Error('Already voted on this proposal')\<close>; \<open>BroadcastFailed\<close> is
  whatever the transport throws.
\<close>

datatype ce_error =
    UnknownProposal | ProposalNotPending | VotingExpired | DuplicateVote | BroadcastFailed

record ConsensusEngine =
  proposals :: "string \<rightharpoonup> ConsensusProposal"
  config :: ConsensusConfig
  reputations :: "string \<rightharpoonup> AgentReputation"
  emitted :: "ce_event list"

definition defaultConfig :: ConsensusConfig where
  "defaultConfig =
     \<lparr>votingThreshold = 66 / 100, votingPeriod = 5 * 60 * 1000,
      minParticipants = 3, reputationWeighting = True\<rparr>"

definition emit_ce :: "ce_event \<Rightarrow> ConsensusEngine \<Rightarrow> ConsensusEngine" where
  "emit_ce e st = st\<lparr>emitted := emitted st @ [e]\<rparr>"

definition has :: "votes \<Rightarrow> string \<Rightarrow> bool" where
  "has m k = (map_of m k \<noteq> None)"

text \<open>The loops \<open>for (const vote of m.values()) w += vote.weight\<close>.\<close>

definition sumWeights :: "votes \<Rightarrow> rat" where
  "sumWeights m = fold (\<lambda>vote w. w + weight vote) (map snd m) 0"

section \<open>Consensus: operations\<close>

definition getAgentWeight :: "ConsensusEngine \<Rightarrow> string \<Rightarrow> rat" where
  "getAgentWeight st a =
     (if \<not> reputationWeighting (config st) then 1
      else (case reputations st a of None \<Rightarrow> 50 | Some rep \<Rightarrow> score rep))"

definition calculateConsensus :: "ConsensusConfig \<Rightarrow> ConsensusProposal \<Rightarrow> ConsensusResult" where
  "calculateConsensus cfg proposal =
     (let supportWeight = sumWeights (supporters proposal);
          rejectWeight = sumWeights (rejectors proposal);
          totalWeight = supportWeight + rejectWeight;
          total = length (supporters proposal) + length (rejectors proposal)
      in if total < minParticipants cfg
         then \<lparr>accepted = False, supportPercentage = 0, totalVotes = total\<rparr>
         else
           (let percentage = (if totalWeight > 0 then supportWeight / totalWeight else 0)
            in \<lparr>accepted = (percentage \<ge> votingThreshold cfg),
                supportPercentage = percentage, totalVotes = total\<rparr>))"

definition adjustReputation :: "ConsensusEngine \<Rightarrow> string \<Rightarrow> rat \<Rightarrow> ConsensusEngine" where
  "adjustReputation st a delta =
     (let rep =
            (case reputations st a of
               None \<Rightarrow> \<lparr>accountId = a, score = 100, tasksCompleted = 0,
                         consensusParticipation = 0\<rparr>
             | Some r \<Rightarrow> r);
          rep' = rep\<lparr>score := max 0 (min 200 (score rep + delta)),
                                   consensusParticipation := consensusParticipation rep + 1\<rparr>
      in emit_ce (ReputationUpdated a (score rep') delta)
           (st\<lparr>reputations := (reputations st)(a \<mapsto> rep')\<rparr>))"

definition updateReputations :: "ConsensusEngine \<Rightarrow> ConsensusProposal \<Rightarrow> bool \<Rightarrow> ConsensusEngine" where
  "updateReputations st proposal acc =
     (let correctVoters = (if acc then supporters proposal else rejectors proposal);
          incorrectVoters = (if acc then rejectors proposal else supporters proposal);
          st1 = fold (\<lambda>vote s. adjustReputation s (voter vote) 5) (map snd correctVoters) st;
          st2 = fold (\<lambda>vote s. adjustReputation s (voter vote) (- 2)) (map snd incorrectVoters) st1
      in if acc then adjustReputation st2 (proposer proposal) 10 else st2)"

definition evaluateProposal :: "ConsensusEngine \<Rightarrow> string \<Rightarrow> ConsensusEngine" where
  "evaluateProposal st pid =
     (case proposals st pid of
        None \<Rightarrow> st
      | Some proposal \<Rightarrow>
          if status proposal \<noteq> Pending then st
          else
            (let result = calculateConsensus (config st) proposal;
                 proposal' = proposal\<lparr>status := (if accepted result then Accepted else Rejected)\<rparr>;
                 st1 = st\<lparr>proposals := (proposals st)(pid \<mapsto> proposal')\<rparr>;
                 st2 = emit_ce (ConsensusReached pid (taskId_prop proposal') (accepted result)
                                  (supportPercentage result) (totalVotes result)
                                  (if accepted result then Some (solution proposal') else None)) st1
             in updateReputations st2 proposal' (accepted result)))"

definition checkEarlyConsensus :: "ConsensusEngine \<Rightarrow> string \<Rightarrow> ConsensusEngine" where
  "checkEarlyConsensus st pid =
     (case proposals st pid of
        None \<Rightarrow> st
      | Some proposal \<Rightarrow>
          if status proposal \<noteq> Pending then st
          else
            (let result = calculateConsensus (config st) proposal;
                 totalPossibleVoters = (10 :: int);
                 remainingVoters = totalPossibleVoters - int (totalVotes result);
                 maxPossibleRejectWeight = of_int remainingVoters * (100 :: rat);
                 currentSupportWeight = sumWeights (supporters proposal);
                 currentRejectWeight = sumWeights (rejectors proposal);
                 worstCaseSupport =
                   js_div currentSupportWeight
                     (currentSupportWeight + currentRejectWeight + maxPossibleRejectWeight)
             in if js_ge worstCaseSupport (Num (votingThreshold (config st)))
                then evaluateProposal st pid
                else st))"

text \<open>
  \<open>proposeSolution\<close>; \<open>pid\<close> is the fresh identifier and \<open>broadcastOk\<close> says whether the
  transport accepts the message (the function stops there when it does not).
\<close>

definition proposeSolution ::
  "ConsensusEngine \<Rightarrow> rat \<Rightarrow> bool \<Rightarrow> string \<Rightarrow> string \<Rightarrow> string \<Rightarrow> string \<Rightarrow> rat
     \<Rightarrow> ce_error option \<times> ConsensusEngine" where
  "proposeSolution st now broadcastOk pid tid sol proposerAccount conf =
     (let proposal =
            \<lparr>id_prop = pid, taskId_prop = tid, solution = sol, proposer = proposerAccount,
             supporters = [(proposerAccount,
                            \<lparr>voter = proposerAccount, weight = getAgentWeight st proposerAccount,
                             timestamp_vote = now, reason = None\<rparr>)],
             rejectors = [], confidence_prop = conf, timestamp_prop = Some now,
             deadline_prop = now + votingPeriod (config st), status = Pending\<rparr>;
          st1 = st\<lparr>proposals := (proposals st)(pid \<mapsto> proposal)\<rparr>
      in if \<not> broadcastOk then (Some BroadcastFailed, st1)
         else (None, emit_ce (ProposalCreated proposal) st1))"

definition voteOnProposal ::
  "ConsensusEngine \<Rightarrow> rat \<Rightarrow> bool \<Rightarrow> string \<Rightarrow> string \<Rightarrow> bool \<Rightarrow> string option
     \<Rightarrow> ce_error option \<times> ConsensusEngine" where
  "voteOnProposal st now broadcastOk pid voterAccount support rsn =
     (case proposals st pid of
        None \<Rightarrow> (Some UnknownProposal, st)
      | Some proposal \<Rightarrow>
          if status proposal \<noteq> Pending then (Some ProposalNotPending, st)
          else if now > deadline_prop proposal then (Some VotingExpired, st)
          else if has (supporters proposal) voterAccount \<or> has (rejectors proposal) voterAccount
            then (Some DuplicateVote, st)
          else
            (let vote = \<lparr>voter = voterAccount, weight = getAgentWeight st voterAccount,
                         timestamp_vote = now, reason = rsn\<rparr>;
                 proposal' =
                   (if support
                    then proposal\<lparr>supporters := AList.update voterAccount vote (supporters proposal)\<rparr>
                    else proposal\<lparr>rejectors := AList.update voterAccount vote (rejectors proposal)\<rparr>);
                 st1 = st\<lparr>proposals := (proposals st)(pid \<mapsto> proposal')\<rparr>
             in if \<not> broadcastOk then (Some BroadcastFailed, st1)
                else (None, emit_ce (VoteReceived pid vote support) (checkEarlyConsensus st1 pid))))"

text \<open>
  \<open>handleRemoteProposal\<close>: the message carries no \<open>timestamp\<close>, so the stored proposal has
  none.
\<close>

definition handleRemoteProposal ::
  "ConsensusEngine \<Rightarrow> rat \<Rightarrow> string \<Rightarrow> string \<Rightarrow> string \<Rightarrow> string \<Rightarrow> rat \<Rightarrow> rat
     \<Rightarrow> ConsensusEngine" where
  "handleRemoteProposal st now pid tid sol proposerAccount conf dl =
     (if proposals st pid \<noteq> None then st
      else
        (let proposal =
               \<lparr>id_prop = pid, taskId_prop = tid, solution = sol, proposer = proposerAccount,
                supporters = AList.update proposerAccount
                               \<lparr>voter = proposerAccount,
                                weight = getAgentWeight st proposerAccount,
                                timestamp_vote = now, reason = None\<rparr> [],
                rejectors = [], confidence_prop = conf, timestamp_prop = None,
                deadline_prop = dl, status = Pending\<rparr>
         in emit_ce (ProposalReceived proposal)
              (st\<lparr>proposals := (proposals st)(pid \<mapsto> proposal)\<rparr>)))"

definition handleRemoteVote ::
  "ConsensusEngine \<Rightarrow> rat \<Rightarrow> string \<Rightarrow> string \<Rightarrow> bool \<Rightarrow> string option \<Rightarrow> ConsensusEngine" where
  "handleRemoteVote st now pid voterAccount support rsn =
     (case proposals st pid of
        None \<Rightarrow> st
      | Some proposal \<Rightarrow>
          if status proposal \<noteq> Pending then st
          else if has (supporters proposal) voterAccount \<or> has (rejectors proposal) voterAccount
            then st
          else
            (let vote = \<lparr>voter = voterAccount, weight = getAgentWeight st voterAccount,
                         timestamp_vote = now, reason = rsn\<rparr>;
                 proposal' =
                   (if support
                    then proposal\<lparr>supporters := AList.update voterAccount vote (supporters proposal)\<rparr>
                    else proposal\<lparr>rejectors := AList.update voterAccount vote (rejectors proposal)\<rparr>);
                 st1 = st\<lparr>proposals := (proposals st)(pid \<mapsto> proposal')\<rparr>
             in emit_ce (VoteReceived pid vote support) (checkEarlyConsensus st1 pid)))"

definition loadReputations :: "ConsensusEngine \<Rightarrow> AgentReputation list \<Rightarrow> ConsensusEngine" where
  "loadReputations st reputationData =
     st\<lparr>reputations := fold (\<lambda>rep m. m(accountId rep \<mapsto> rep)) reputationData (reputations st)\<rparr>"


section \<open>Notions used in the statements\<close>

text \<open>
  The score \<open>adjustReputation\<close> starts from: the one on record, and the starting score
  100 for an account without a record.
\<close>

definition scoreOf :: "ConsensusEngine \<Rightarrow> string \<Rightarrow> rat" where
  "scoreOf st a = (case reputations st a of None \<Rightarrow> 100 | Some r \<Rightarrow> score r)"

definition reputation_bounded :: "ConsensusEngine \<Rightarrow> bool" where
  "reputation_bounded st =
     (\<forall>a r. reputations st a = Some r \<longrightarrow> 0 \<le> score r \<and> score r \<le> 200)"

text \<open>The test of \<open>checkEarlyConsensus\<close>, as a predicate of the proposal it reads.\<close>

definition early :: "ConsensusConfig \<Rightarrow> ConsensusProposal \<Rightarrow> bool" where
  "early cfg q =
     js_ge (js_div (sumWeights (supporters q))
              (sumWeights (supporters q) + sumWeights (rejectors q)
                 + of_int (10 - int (length (supporters q) + length (rejectors q))) * 100))
           (Num (votingThreshold cfg))"

text \<open>The proposal after \<open>voterAccount\<close>'s vote was stored in one of its two maps.\<close>

definition with_vote :: "ConsensusProposal \<Rightarrow> string \<Rightarrow> Vote \<Rightarrow> bool \<Rightarrow> ConsensusProposal" where
  "with_vote p a v support =
     (if support then p\<lparr>supporters := AList.update a v (supporters p)\<rparr>
      else p\<lparr>rejectors := AList.update a v (rejectors p)\<rparr>)"

text \<open>The proposal after \<open>evaluateProposal\<close> set its status.\<close>

definition decided :: "ConsensusConfig \<Rightarrow> ConsensusProposal \<Rightarrow> ConsensusProposal" where
  "decided cfg p =
     p\<lparr>status := (if accepted (calculateConsensus cfg p) then Accepted else Rejected)\<rparr>"

text \<open>
  The vote maps of a proposal as the engine builds them: every vote is stored under its
  voter, and no account is a key twice, in one map or across the two.
\<close>

definition wf_votes :: "ConsensusProposal \<Rightarrow> bool" where
  "wf_votes p =
     (distinct (map fst (supporters p @ rejectors p))
      \<and> list_all (\<lambda>kv. voter (snd kv) = fst kv) (supporters p @ rejectors p))"

text \<open>
  The bids the loop of \<open>selectOptimalAgents\<close> has selected when it has read the list
  \<open>xs\<close>, and the capability tags of a list of bids.
\<close>

abbreviation selected_after :: "rat \<Rightarrow> rat \<Rightarrow> ScoredBid list \<Rightarrow> ScoredBid list" where
  "selected_after minA maxA xs \<equiv> fst (select_loop minA maxA xs ([], {}))"

definition covered :: "ScoredBid list \<Rightarrow> string set" where
  "covered sel = (\<Union>b \<in> set sel. set (capabilities b))"

section \<open>Concrete inputs\<close>

definition vote_of :: "string \<Rightarrow> rat \<Rightarrow> string \<times> Vote" where
  "vote_of a w = (a, \<lparr>voter = a, weight = w, timestamp_vote = 0, reason = None\<rparr>)"

text \<open>
  The scenario of the specification: \<open>A\<close> proposes and supports with weight 100, \<open>B\<close>
  supports with weight 100, \<open>C\<close> rejects with weight 50.
\<close>

definition proposal_abc :: ConsensusProposal where
  "proposal_abc =
     \<lparr>id_prop = ''p1'', taskId_prop = ''t1'', solution = ''s'', proposer = ''A'',
      supporters = [vote_of ''A'' 100, vote_of ''B'' 100], rejectors = [vote_of ''C'' 50],
      confidence_prop = 1 / 2, timestamp_prop = Some 0, deadline_prop = 300000,
      status = Pending\<rparr>"

definition rep_of :: "string \<Rightarrow> rat \<Rightarrow> AgentReputation" where
  "rep_of a s = \<lparr>accountId = a, score = s, tasksCompleted = 0, consensusParticipation = 0\<rparr>"

definition engine0 :: ConsensusEngine where
  "engine0 =
     \<lparr>proposals = Map.empty, config = defaultConfig, reputations = Map.empty, emitted = []\<rparr>"

text \<open>The engine that holds the proposal above, with the three voters on record.\<close>

definition engine_abc :: ConsensusEngine where
  "engine_abc =
     \<lparr>proposals = [''p1'' \<mapsto> proposal_abc], config = defaultConfig,
      reputations = [''A'' \<mapsto> rep_of ''A'' 100, ''B'' \<mapsto> rep_of ''B'' 100,
                     ''C'' \<mapsto> rep_of ''C'' 50],
      emitted = []\<rparr>"


definition distributor0 :: TaskDistributor where
  "distributor0 =
     \<lparr>taskQueue = Map.empty, agentBids = Map.empty, agentProfiles = Map.empty,
      activeAssignments = Map.empty, events = []\<rparr>"

definition task1 :: Task where
  "task1 =
     \<lparr>id_task = ''t1'', description = ''d'', requiredCapabilities = [''nlp''],
      bounty = 100, deadline_task = 1000000, requester = ''R'',
      minAgents = Some 1, maxAgents = Some 3, priority = None\<rparr>"

text \<open>The queue after \<open>task1\<close> was announced and then cancelled.\<close>

definition distributor_cancelled :: TaskDistributor where
  "distributor_cancelled = cancelTask (announceTask distributor0 task1) ''t1'' ''stop''"

text \<open>A bid for \<open>task1\<close> by an agent that has the required capability.\<close>

definition bid_of :: "string \<Rightarrow> rat \<Rightarrow> rat \<Rightarrow> AgentBid" where
  "bid_of a rep conf =
     \<lparr>agentId = a, taskId_bid = ''t1'', estimatedTime = 1000, requestedReward = 50,
      confidence_bid = conf, capabilities = [''nlp''], reputation = rep\<rparr>"

definition distributor_open :: TaskDistributor where
  "distributor_open = announceTask distributor0 task1"

text \<open>
  The auction scenario of the specification: three bids with reputations 100, 50 and 10
  and confidences 0.9, 0.5 and 0.2, submitted in the opposite order.
\<close>

definition three_bids :: "AgentBid list" where
  "three_bids = [bid_of ''Z'' 10 (1 / 5), bid_of ''Y'' 50 (1 / 2), bid_of ''X'' 100 (9 / 10)]"

definition distributor_bids :: TaskDistributor where
  "distributor_bids = distributor_open\<lparr>agentBids := [''t1'' \<mapsto> three_bids]\<rparr>"


text \<open>
  A tally with a negative weight: \<open>C\<close> rejects with the weight \<open>-150\<close> of a score that
  was loaded into the ledger. And a tally of three votes of weight zero.
\<close>

definition proposal_neg :: ConsensusProposal where
  "proposal_neg =
     proposal_abc\<lparr>supporters := [vote_of ''A'' 100, vote_of ''B'' 50],
                  rejectors := [vote_of ''C'' (- 150)]\<rparr>"

definition proposal_zero :: ConsensusProposal where
  "proposal_zero =
     proposal_abc\<lparr>supporters := [vote_of ''A'' 0, vote_of ''B'' 0],
                  rejectors := [vote_of ''C'' 0]\<rparr>"

text \<open>
  A task without bounty and three bids for it, the second of which asks for no reward; and
  a task whose two bounds are \<open>-1\<close>, announced, with the three bids of the auction
  scenario.
\<close>

definition task_free :: Task where
  "task_free = task1\<lparr>bounty := 0\<rparr>"

definition bids_free :: "AgentBid list" where
  "bids_free =
     [bid_of ''Y'' 50 (1 / 2), (bid_of ''N'' 10 (1 / 5))\<lparr>requestedReward := 0\<rparr>,
      bid_of ''X'' 100 (9 / 10)]"

definition task_neg :: Task where
  "task_neg = task1\<lparr>minAgents := Some (- 1), maxAgents := Some (- 1)\<rparr>"

definition distributor_neg :: TaskDistributor where
  "distributor_neg = (announceTask distributor0 task_neg)\<lparr>agentBids := [''t1'' \<mapsto> three_bids]\<rparr>"


text \<open>
  The task without bounty, announced, with three bids of which the second asks for no
  reward and the third has the best score, below 0.8.
\<close>

definition bids_low :: "AgentBid list" where
  "bids_low =
     [bid_of ''Y'' 50 (1 / 2), (bid_of ''N'' 10 (1 / 5))\<lparr>requestedReward := 0\<rparr>,
      bid_of ''W'' 60 (1 / 2)]"

definition distributor_low :: TaskDistributor where
  "distributor_low = (announceTask distributor0 task_free)\<lparr>agentBids := [''t1'' \<mapsto> bids_low]\<rparr>"

section \<open>The weighted tally\<close>

lemma fold_weights: "fold (\<lambda>vote w. w + weight vote) vs a = a + sum_list (map weight vs)"
  by (induction vs arbitrary: a) simp_all

lemma sumWeights_sum_list: "sumWeights m = (\<Sum>v\<leftarrow>map snd m. weight v)"
  by (simp add: sumWeights_def fold_weights)

lemma sumWeights_nonneg: "\<forall>v \<in> snd ` set m. 0 \<le> weight v \<Longrightarrow> 0 \<le> sumWeights m"
  unfolding sumWeights_sum_list by (rule sum_list_nonneg) auto

lemma accepted_calculateConsensus:
  "accepted (calculateConsensus cfg p) \<longleftrightarrow>
     \<not> length (supporters p) + length (rejectors p) < minParticipants cfg \<and>
     votingThreshold cfg \<le>
       (if sumWeights (supporters p) + sumWeights (rejectors p) > 0
        then sumWeights (supporters p) / (sumWeights (supporters p) + sumWeights (rejectors p))
        else 0)"
  by (simp add: calculateConsensus_def Let_def)

lemma totalVotes_calculateConsensus:
  "totalVotes (calculateConsensus cfg p) = length (supporters p) + length (rejectors p)"
  by (simp add: calculateConsensus_def Let_def)

text \<open>
  C1, as the code has it. With fewer votes than \<open>minParticipants\<close> a proposal is not
  accepted, whatever the weights. Otherwise it is accepted exactly when the support
  percentage reaches \<open>votingThreshold\<close>, where the support percentage is the ratio of the
  support weight to the total weight when the total weight is positive, and zero when it
  is not. For weights that are not negative and a positive threshold this is the plain
  comparison of the ratio with the threshold (the ratio of an all-zero tally is \<open>NaN\<close>,
  which reaches no threshold).
\<close>

theorem calculateConsensus_accepted:
  "(let supportWeight = (\<Sum>v\<leftarrow>map snd (supporters p). weight v);
        rejectWeight = (\<Sum>v\<leftarrow>map snd (rejectors p). weight v);
        total = length (supporters p) + length (rejectors p)
    in (total < minParticipants cfg \<longrightarrow> \<not> accepted (calculateConsensus cfg p))
     \<and> (\<not> total < minParticipants cfg \<longrightarrow>
          (accepted (calculateConsensus cfg p) \<longleftrightarrow>
             votingThreshold cfg \<le>
               (if 0 < supportWeight + rejectWeight
                then supportWeight / (supportWeight + rejectWeight) else 0)))
     \<and> (\<not> total < minParticipants cfg
          \<and> (\<forall>v \<in> snd ` set (supporters p @ rejectors p). 0 \<le> weight v)
          \<and> 0 < votingThreshold cfg \<longrightarrow>
          (accepted (calculateConsensus cfg p) \<longleftrightarrow>
             js_ge (js_div supportWeight (supportWeight + rejectWeight))
                   (Num (votingThreshold cfg)))))"
proof -
  define S where "S = sumWeights (supporters p)"
  define R where "R = sumWeights (rejectors p)"
  have "js_ge (js_div S (S + R)) (Num (votingThreshold cfg)) \<longleftrightarrow>
          votingThreshold cfg \<le> (if S + R > 0 then S / (S + R) else 0)"
    if w: "\<forall>v \<in> snd ` set (supporters p @ rejectors p). 0 \<le> weight v"
      and t: "0 < votingThreshold cfg"
  proof (cases "S + R > 0")
    case True
    then show ?thesis by simp
  next
    case False
    have "0 \<le> S" "0 \<le> R"
      using w unfolding S_def R_def by (auto intro!: sumWeights_nonneg)
    with False have "S = 0" "R = 0" by linarith+
    with t show ?thesis by simp
  qed
  then show ?thesis
    unfolding accepted_calculateConsensus sumWeights_sum_list [symmetric] Let_def
      S_def [symmetric] R_def [symmetric]
    by auto
qed

theorem calculateConsensus_accepted_witness:
  "list_all (\<lambda>v. 0 \<le> weight (snd v)) (supporters proposal_abc @ rejectors proposal_abc)
   \<and> 0 < votingThreshold defaultConfig
   \<and> accepted (calculateConsensus defaultConfig proposal_abc)
   \<and> js_ge (js_div 200 (200 + 50)) (Num (votingThreshold defaultConfig))
   \<and> length (supporters (proposal_abc\<lparr>rejectors := []\<rparr>))
        + length (rejectors (proposal_abc\<lparr>rejectors := []\<rparr>)) < minParticipants defaultConfig
   \<and> \<not> accepted (calculateConsensus defaultConfig (proposal_abc\<lparr>rejectors := []\<rparr>))"
  using calculateConsensus_accepted [of proposal_abc defaultConfig]
    calculateConsensus_accepted [of "proposal_abc\<lparr>rejectors := []\<rparr>" defaultConfig]
  by (simp add: proposal_abc_def vote_of_def defaultConfig_def Let_def)

text \<open>
  The comparison of the bare ratio with the threshold is not what the code computes when
  the total weight is not positive. With the weights 100 and 50 in support and \<open>-150\<close>
  against, the ratio \<open>150 / 0\<close> is \<open>Infinity\<close>, above every threshold, and the proposal
  is rejected; a score of \<open>-150\<close> enters the ledger through \<open>loadReputations\<close> and is the
  weight of the vote. With a threshold of zero and three votes of weight zero, the ratio
  \<open>0 / 0\<close> is \<open>NaN\<close>, which reaches no threshold, and the proposal is accepted.
\<close>

theorem calculateConsensus_accepted_counterexample:
  "\<not> length (supporters proposal_neg) + length (rejectors proposal_neg)
       < minParticipants defaultConfig
   \<and> js_ge (js_div (\<Sum>v\<leftarrow>map snd (supporters proposal_neg). weight v)
              ((\<Sum>v\<leftarrow>map snd (supporters proposal_neg). weight v)
                + (\<Sum>v\<leftarrow>map snd (rejectors proposal_neg). weight v)))
           (Num (votingThreshold defaultConfig))
   \<and> \<not> accepted (calculateConsensus defaultConfig proposal_neg)
   \<and> getAgentWeight (loadReputations engine0 [rep_of ''C'' (- 150)]) ''C'' = - 150
   \<and> \<not> length (supporters proposal_zero) + length (rejectors proposal_zero)
       < minParticipants (defaultConfig\<lparr>votingThreshold := 0\<rparr>)
   \<and> \<not> js_ge (js_div (\<Sum>v\<leftarrow>map snd (supporters proposal_zero). weight v)
              ((\<Sum>v\<leftarrow>map snd (supporters proposal_zero). weight v)
                + (\<Sum>v\<leftarrow>map snd (rejectors proposal_zero). weight v)))
           (Num (votingThreshold (defaultConfig\<lparr>votingThreshold := 0\<rparr>)))
   \<and> accepted (calculateConsensus (defaultConfig\<lparr>votingThreshold := 0\<rparr>) proposal_zero)"
  by (simp add: proposal_neg_def proposal_zero_def proposal_abc_def vote_of_def defaultConfig_def
      calculateConsensus_def sumWeights_def getAgentWeight_def loadReputations_def engine0_def
      rep_of_def)

section \<open>Votes: what a recorded vote changes\<close>

lemma proposals_adjustReputation [simp]: "proposals (adjustReputation st a d) = proposals st"
  and config_adjustReputation [simp]: "config (adjustReputation st a d) = config st"
  by (simp_all add: adjustReputation_def Let_def emit_ce_def)

lemma fold_adjust_frame [simp]:
  "proposals (fold (\<lambda>vote s. adjustReputation s (voter vote) d) vs st) = proposals st"
  "config (fold (\<lambda>vote s. adjustReputation s (voter vote) d) vs st) = config st"
  by (induction vs arbitrary: st) simp_all

lemma updateReputations_frame [simp]:
  "proposals (updateReputations st p acc) = proposals st"
  "config (updateReputations st p acc) = config st"
  by (simp_all add: updateReputations_def Let_def)

lemma proposals_evaluateProposal:
  assumes "proposals st pid = Some p" and "status p = Pending"
  shows "proposals (evaluateProposal st pid) = (proposals st)(pid \<mapsto> decided (config st) p)"
  using assms by (simp add: evaluateProposal_def Let_def emit_ce_def decided_def)

lemma proposals_checkEarlyConsensus:
  assumes "proposals st pid = Some p" and "status p = Pending"
  shows "proposals (checkEarlyConsensus st pid) pid =
           Some (if early (config st) p then decided (config st) p else p)"
  using assms
  by (simp add: checkEarlyConsensus_def Let_def early_def totalVotes_calculateConsensus
      proposals_evaluateProposal)

lemma decided_simps [simp]:
  "supporters (decided cfg p) = supporters p"
  "rejectors (decided cfg p) = rejectors p"
  "status (decided cfg p) \<noteq> Pending"
  "calculateConsensus cfg' (decided cfg p) = calculateConsensus cfg' p"
  "early cfg' (decided cfg p) = early cfg' p"
  by (simp_all add: decided_def calculateConsensus_def early_def)

lemma with_vote_simps [simp]:
  "status (with_vote p a v support) = status p"
  "map_of (if support then supporters (with_vote p a v support)
           else rejectors (with_vote p a v support)) a = Some v"
  by (simp_all add: with_vote_def update_conv')

lemma snd_voteOnProposal:
  assumes "fst (voteOnProposal st now ok pid a support rsn) = None"
  shows "\<exists>p. proposals st pid = Some p \<and> status p = Pending
           \<and> snd (voteOnProposal st now ok pid a support rsn) =
               emit_ce (VoteReceived pid \<lparr>voter = a, weight = getAgentWeight st a,
                                          timestamp_vote = now, reason = rsn\<rparr> support)
                 (checkEarlyConsensus
                    (st\<lparr>proposals := (proposals st)(pid \<mapsto>
                          with_vote p a \<lparr>voter = a, weight = getAgentWeight st a,
                                         timestamp_vote = now, reason = rsn\<rparr> support)\<rparr>) pid)"
  using assms
  by (auto simp: voteOnProposal_def Let_def with_vote_def split: option.splits if_splits)

lemma proposals_voteOnProposal:
  assumes "fst (voteOnProposal st now ok pid a support rsn) = None"
  shows "\<exists>p. proposals st pid = Some p \<and> status p = Pending
           \<and> proposals (snd (voteOnProposal st now ok pid a support rsn)) pid =
               Some (let p' = with_vote p a \<lparr>voter = a, weight = getAgentWeight st a,
                                              timestamp_vote = now, reason = rsn\<rparr> support
                     in if early (config st) p' then decided (config st) p' else p')"
proof -
  define v where "v = \<lparr>voter = a, weight = getAgentWeight st a, timestamp_vote = now, reason = rsn\<rparr>"
  from snd_voteOnProposal [OF assms] obtain p where
    p: "proposals st pid = Some p" "status p = Pending"
    and snd: "snd (voteOnProposal st now ok pid a support rsn) =
               emit_ce (VoteReceived pid v support)
                 (checkEarlyConsensus
                    (st\<lparr>proposals := (proposals st)(pid \<mapsto> with_vote p a v support)\<rparr>) pid)"
    unfolding v_def by blast
  define st1 where "st1 = st\<lparr>proposals := (proposals st)(pid \<mapsto> with_vote p a v support)\<rparr>"
  have st1: "proposals st1 pid = Some (with_vote p a v support)"
    "status (with_vote p a v support) = Pending" "config st1 = config st"
    using p by (simp_all add: st1_def)
  have "proposals (snd (voteOnProposal st now ok pid a support rsn)) pid =
          proposals (checkEarlyConsensus st1 pid) pid"
    unfolding snd st1_def by (simp add: emit_ce_def)
  also have "\<dots> = Some (if early (config st) (with_vote p a v support)
                         then decided (config st) (with_vote p a v support)
                         else with_vote p a v support)"
    using proposals_checkEarlyConsensus [OF st1(1,2)] st1(3) by simp
  finally show ?thesis
    using p unfolding v_def Let_def by blast
qed

lemma proposals_emit_ce [simp]: "proposals (emit_ce e st) = proposals st"
  by (simp add: emit_ce_def)

section \<open>Reputation\<close>

lemma scoreOf_frame [simp]:
  "scoreOf (st\<lparr>proposals := ps\<rparr>) = scoreOf st"
  "scoreOf (emit_ce e st) = scoreOf st"
  by (simp_all add: scoreOf_def emit_ce_def fun_eq_iff)

lemma scoreOf_adjustReputation:
  "scoreOf (adjustReputation st a d) b =
     (if b = a then max 0 (min 200 (scoreOf st a + d)) else scoreOf st b)"
  by (simp add: scoreOf_def adjustReputation_def Let_def emit_ce_def split: option.splits)

lemma scoreOf_fold_adjust:
  assumes "distinct (map voter vs)"
  shows "scoreOf (fold (\<lambda>vote s. adjustReputation s (voter vote) d) vs st) b =
           (if b \<in> voter ` set vs then max 0 (min 200 (scoreOf st b + d)) else scoreOf st b)"
  using assms
proof (induction vs arbitrary: st)
  case Nil
  then show ?case by simp
next
  case (Cons v vs)
  then show ?case by (auto simp: scoreOf_adjustReputation)
qed

lemma scoreOf_updateReputations:
  assumes "distinct (map (\<lambda>v. voter (snd v)) (supporters p @ rejectors p))"
  shows "scoreOf (updateReputations st p acc) a =
     (let winners = (if acc then supporters p else rejectors p);
          losers = (if acc then rejectors p else supporters p);
          s1 = (if a \<in> (\<lambda>v. voter (snd v)) ` set winners then max 0 (min 200 (scoreOf st a + 5))
                else if a \<in> (\<lambda>v. voter (snd v)) ` set losers then max 0 (min 200 (scoreOf st a - 2))
                else scoreOf st a)
      in if acc \<and> a = proposer p then max 0 (min 200 (s1 + 10)) else s1)"
proof -
  define W where "W = (if acc then supporters p else rejectors p)"
  define L where "L = (if acc then rejectors p else supporters p)"
  have dW: "distinct (map voter (map snd W))" and dL: "distinct (map voter (map snd L))"
    and disj: "(\<lambda>v. voter (snd v)) ` set W \<inter> (\<lambda>v. voter (snd v)) ` set L = {}"
    using assms by (auto simp: comp_def W_def L_def)
  have img: "voter ` set (map snd m) = (\<lambda>v. voter (snd v)) ` set m" for m :: votes
    by (simp add: image_image)
  define st1 where "st1 = fold (\<lambda>vote s. adjustReputation s (voter vote) 5) (map snd W) st"
  define st2 where "st2 = fold (\<lambda>vote s. adjustReputation s (voter vote) (- 2)) (map snd L) st1"
  have s1: "scoreOf st1 b = (if b \<in> (\<lambda>v. voter (snd v)) ` set W
                             then max 0 (min 200 (scoreOf st b + 5)) else scoreOf st b)" for b
    unfolding st1_def scoreOf_fold_adjust [OF dW] img ..
  have s2: "scoreOf st2 b = (if b \<in> (\<lambda>v. voter (snd v)) ` set L
                             then max 0 (min 200 (scoreOf st1 b - 2)) else scoreOf st1 b)" for b
    unfolding st2_def scoreOf_fold_adjust [OF dL] img by simp
  have s12: "scoreOf st2 a =
      (if a \<in> (\<lambda>v. voter (snd v)) ` set W then max 0 (min 200 (scoreOf st a + 5))
       else if a \<in> (\<lambda>v. voter (snd v)) ` set L then max 0 (min 200 (scoreOf st a - 2))
       else scoreOf st a)"
  proof (cases "a \<in> (\<lambda>v. voter (snd v)) ` set W")
    case True
    with disj have "a \<notin> (\<lambda>v. voter (snd v)) ` set L" by blast
    with True show ?thesis by (simp only: s1 s2 if_True if_False)
  next
    case False
    then show ?thesis by (simp only: s1 s2 if_False)
  qed
  have upd: "updateReputations st p acc = (if acc then adjustReputation st2 (proposer p) 10 else st2)"
    by (simp add: updateReputations_def Let_def st2_def st1_def W_def L_def)
  have "scoreOf (updateReputations st p acc) a =
          (if acc \<and> a = proposer p then max 0 (min 200 (scoreOf st2 a + 10)) else scoreOf st2 a)"
    unfolding upd
    by (cases acc; cases "a = proposer p")
      (simp_all only: scoreOf_adjustReputation if_True if_False simp_thms)
  then show ?thesis
    unfolding Let_def W_def [symmetric] L_def [symmetric] s12 .
qed

lemma evaluateProposal_pending:
  assumes "proposals st pid = Some p" and "status p = Pending"
  shows "evaluateProposal st pid =
           updateReputations
             (emit_ce (ConsensusReached pid (taskId_prop p) (accepted (calculateConsensus (config st) p))
                         (supportPercentage (calculateConsensus (config st) p))
                         (totalVotes (calculateConsensus (config st) p))
                         (if accepted (calculateConsensus (config st) p) then Some (solution p) else None))
                (st\<lparr>proposals := (proposals st)(pid \<mapsto> decided (config st) p)\<rparr>))
             (decided (config st) p) (accepted (calculateConsensus (config st) p))"
  using assms by (simp add: evaluateProposal_def Let_def decided_def)


text \<open>
  C5. When a pending proposal is finalized, every voter on the winning side moves from its
  score (100 when it has no record) to that score plus 5, every voter on the losing side to
  its score minus 2, and the proposer of an accepted proposal then gains 10 more; each
  adjustment is clamped to the range from 0 to 200, and nobody else's score moves. No
  account has two votes on one proposal.
\<close>

theorem finalize_reputations:
  assumes "proposals st pid = Some p" and "status p = Pending"
    and "distinct (map (\<lambda>v. voter (snd v)) (supporters p @ rejectors p))"
  shows "scoreOf (evaluateProposal st pid) a =
     (let acc = accepted (calculateConsensus (config st) p);
          winners = (if acc then supporters p else rejectors p);
          losers = (if acc then rejectors p else supporters p);
          s1 = (if a \<in> (\<lambda>v. voter (snd v)) ` set winners then max 0 (min 200 (scoreOf st a + 5))
                else if a \<in> (\<lambda>v. voter (snd v)) ` set losers then max 0 (min 200 (scoreOf st a - 2))
                else scoreOf st a)
      in if acc \<and> a = proposer p then max 0 (min 200 (s1 + 10)) else s1)"
proof -
  define acc where "acc = accepted (calculateConsensus (config st) p)"
  define p' where "p' = decided (config st) p"
  define st2 where "st2 = emit_ce (ConsensusReached pid (taskId_prop p) acc
                        (supportPercentage (calculateConsensus (config st) p))
                        (totalVotes (calculateConsensus (config st) p))
                        (if acc then Some (solution p) else None))
               (st\<lparr>proposals := (proposals st)(pid \<mapsto> p')\<rparr>)"
  have ev: "evaluateProposal st pid = updateReputations st2 p' acc"
    unfolding evaluateProposal_pending [OF assms(1,2)] acc_def p'_def st2_def ..
  have p': "supporters p' = supporters p" "rejectors p' = rejectors p" "proposer p' = proposer p"
    by (simp_all add: p'_def decided_def)
  have st2: "scoreOf st2 a = scoreOf st a"
    by (simp add: st2_def)
  have "distinct (map (\<lambda>v. voter (snd v)) (supporters p' @ rejectors p'))"
    using assms(3) unfolding p' .
  from scoreOf_updateReputations [OF this, of st2 acc a]
  show ?thesis
    unfolding ev p' st2 acc_def [symmetric] Let_def .
qed

theorem finalize_reputations_witness:
  "proposals engine_abc ''p1'' = Some proposal_abc \<and> status proposal_abc = Pending
   \<and> distinct (map (\<lambda>v. voter (snd v)) (supporters proposal_abc @ rejectors proposal_abc))
   \<and> accepted (calculateConsensus (config engine_abc) proposal_abc)
   \<and> scoreOf engine_abc ''A'' = 100 \<and> scoreOf (evaluateProposal engine_abc ''p1'') ''A'' = 115
   \<and> scoreOf engine_abc ''B'' = 100 \<and> scoreOf (evaluateProposal engine_abc ''p1'') ''B'' = 105
   \<and> scoreOf engine_abc ''C'' = 50 \<and> scoreOf (evaluateProposal engine_abc ''p1'') ''C'' = 48"
proof -
  have h1: "proposals engine_abc ''p1'' = Some proposal_abc"
    by (simp add: engine_abc_def)
  have h2: "status proposal_abc = Pending"
    by (simp add: proposal_abc_def)
  have h3: "distinct (map (\<lambda>v. voter (snd v)) (supporters proposal_abc @ rejectors proposal_abc))"
    by (simp add: proposal_abc_def vote_of_def)
  have acc: "accepted (calculateConsensus (config engine_abc) proposal_abc)"
    by (simp add: engine_abc_def proposal_abc_def vote_of_def defaultConfig_def
        calculateConsensus_def sumWeights_def)
  have s: "scoreOf engine_abc ''A'' = 100" "scoreOf engine_abc ''B'' = 100"
    "scoreOf engine_abc ''C'' = 50"
    by (simp_all add: scoreOf_def engine_abc_def rep_of_def)
  have v: "(\<lambda>v. voter (snd v)) ` set (supporters proposal_abc) = {''A'', ''B''}"
    "(\<lambda>v. voter (snd v)) ` set (rejectors proposal_abc) = {''C''}"
    "proposer proposal_abc = ''A''"
    by (simp_all add: proposal_abc_def vote_of_def)
  note t = finalize_reputations [OF h1 h2 h3]
  have "scoreOf (evaluateProposal engine_abc ''p1'') ''A'' = 115"
    "scoreOf (evaluateProposal engine_abc ''p1'') ''B'' = 105"
    "scoreOf (evaluateProposal engine_abc ''p1'') ''C'' = 48"
    unfolding t by (simp_all add: acc s v)
  with h1 h2 h3 acc s show ?thesis by simp
qed





lemma bounded_frame [simp]:
  "reputation_bounded (st\<lparr>proposals := ps\<rparr>) = reputation_bounded st"
  "reputation_bounded (emit_ce e st) = reputation_bounded st"
  by (simp_all add: reputation_bounded_def emit_ce_def)








section \<open>The weight of a first vote\<close>

lemma proposals_proposeSolution:
  "proposals (snd (proposeSolution st now ok pid tid sol a conf)) pid =
     Some \<lparr>id_prop = pid, taskId_prop = tid, solution = sol, proposer = a,
           supporters = [(a, \<lparr>voter = a, weight = getAgentWeight st a,
                              timestamp_vote = now, reason = None\<rparr>)],
           rejectors = [], confidence_prop = conf, timestamp_prop = Some now,
           deadline_prop = now + votingPeriod (config st), status = Pending\<rparr>"
  by (simp add: proposeSolution_def Let_def emit_ce_def)

text \<open>
  C8, as the code has it. The vote of an account without a record has weight 50 when
  reputation weighting is on and weight 1 when it is off, for the proposer registered by
  \<open>proposeSolution\<close> as for a voter recorded by \<open>voteOnProposal\<close>; it is not the
  starting score 100.
\<close>

theorem first_contact_weight:
  assumes "reputations st a = None"
  shows "getAgentWeight st a = (if reputationWeighting (config st) then 50 else 1)
       \<and> (\<exists>p v. proposals (snd (proposeSolution st now ok pid tid sol a conf)) pid = Some p
                \<and> map_of (supporters p) a = Some v
                \<and> weight v = (if reputationWeighting (config st) then 50 else 1))
       \<and> (fst (voteOnProposal st now ok pid a support rsn) = None \<longrightarrow>
            (\<exists>q v. proposals (snd (voteOnProposal st now ok pid a support rsn)) pid = Some q
                \<and> map_of (if support then supporters q else rejectors q) a = Some v
                \<and> weight v = (if reputationWeighting (config st) then 50 else 1)))"
proof -
  have w: "getAgentWeight st a = (if reputationWeighting (config st) then 50 else 1)"
    using assms by (simp add: getAgentWeight_def)
  have "\<exists>p v. proposals (snd (proposeSolution st now ok pid tid sol a conf)) pid = Some p
                \<and> map_of (supporters p) a = Some v
                \<and> weight v = (if reputationWeighting (config st) then 50 else 1)"
    unfolding proposals_proposeSolution using w by simp
  moreover have "\<exists>q v. proposals (snd (voteOnProposal st now ok pid a support rsn)) pid = Some q
                \<and> map_of (if support then supporters q else rejectors q) a = Some v
                \<and> weight v = (if reputationWeighting (config st) then 50 else 1)"
    if "fst (voteOnProposal st now ok pid a support rsn) = None"
  proof -
    define v where "v = \<lparr>voter = a, weight = getAgentWeight st a, timestamp_vote = now, reason = rsn\<rparr>"
    from proposals_voteOnProposal [OF that] obtain p where
      q: "proposals (snd (voteOnProposal st now ok pid a support rsn)) pid =
              Some (if early (config st) (with_vote p a v support)
                    then decided (config st) (with_vote p a v support)
                    else with_vote p a v support)"
      unfolding v_def Let_def by blast
    have "map_of (if support
                  then supporters (if early (config st) (with_vote p a v support)
                    then decided (config st) (with_vote p a v support)
                    else with_vote p a v support)
                  else rejectors (if early (config st) (with_vote p a v support)
                    then decided (config st) (with_vote p a v support)
                    else with_vote p a v support)) a = Some v"
      using with_vote_simps(2) [of support p a v] by (cases support) simp_all
    moreover have "weight v = (if reputationWeighting (config st) then 50 else 1)"
      using w by (simp add: v_def)
    ultimately show ?thesis using q by blast
  qed
  ultimately show ?thesis using w by blast
qed

theorem first_contact_weight_witness:
  "reputations engine_abc ''D'' = None
   \<and> getAgentWeight engine_abc ''D'' = 50
   \<and> fst (voteOnProposal engine_abc 1000 True ''p1'' ''D'' False None) = None"
proof -
  have h: "reputations engine_abc ''D'' = None"
    by (simp add: engine_abc_def)
  have f: "fst (voteOnProposal engine_abc 1000 True ''p1'' ''D'' False None) = None"
    by (simp add: voteOnProposal_def engine_abc_def proposal_abc_def vote_of_def has_def Let_def)
  from first_contact_weight [OF h, of 1000 True "''p1''" "''t1''" "''s''" "1 / 2" False None] h f
  show ?thesis
    by (simp add: engine_abc_def defaultConfig_def)
qed

theorem first_contact_weight_counterexample:
  "reputations engine0 ''A'' = None \<and> getAgentWeight engine0 ''A'' = 50
   \<and> map (\<lambda>v. weight (snd v))
        (supporters (the (proposals
           (snd (proposeSolution engine0 0 True ''p1'' ''t1'' ''s'' ''A'' (1 / 2))) ''p1'')))
      = [50]"
  by (simp add: engine0_def getAgentWeight_def defaultConfig_def proposals_proposeSolution)

section \<open>Evaluation of a task that left the queue\<close>

text \<open>
  C9, as the code has it. Evaluating a task that is not in the queue creates no
  assignment and leaves the queue, the bids, the profiles and the assignments as they
  are, but it emits \<open>taskAssignmentFailed\<close> with the reason \<open>No valid bids received\<close>.
\<close>

theorem evaluate_unknown_task:
  assumes "taskQueue st tid = None"
  shows "evaluateBidsAndAssign srt st now onChainOk tid =
           (None, st\<lparr>events := events st @ [TaskAssignmentFailed tid ''No valid bids received'']\<rparr>)"
  using assms by (simp add: evaluateBidsAndAssign_def emit_def)

theorem evaluate_unknown_task_witness:
  "taskQueue distributor_cancelled ''t1'' = None
   \<and> evaluateBidsAndAssign stable_sorted distributor_cancelled 0 True ''t1''
     = (None, distributor_cancelled
          \<lparr>events := [TaskAnnounced task1, TaskCancelled ''t1'' ''stop'',
                      TaskAssignmentFailed ''t1'' ''No valid bids received'']\<rparr>)"
  using evaluate_unknown_task [of distributor_cancelled "''t1''" stable_sorted 0 True]
  by (simp add: distributor_cancelled_def cancelTask_def announceTask_def distributor0_def
      task1_def emit_def Let_def)

theorem evaluate_noop_counterexample:
  "taskQueue distributor_cancelled ''t1'' = None
   \<and> events distributor_cancelled = [TaskAnnounced task1, TaskCancelled ''t1'' ''stop'']
   \<and> events (snd (evaluateBidsAndAssign stable_sorted distributor_cancelled 0 True ''t1''))
      = [TaskAnnounced task1, TaskCancelled ''t1'' ''stop'',
         TaskAssignmentFailed ''t1'' ''No valid bids received'']"
  by (simp add: evaluateBidsAndAssign_def distributor_cancelled_def cancelTask_def
      announceTask_def distributor0_def task1_def emit_def Let_def)

section \<open>Bids\<close>

lemma find_agentId: "find (\<lambda>b. agentId b = a) bids = None \<longleftrightarrow> a \<notin> agentId ` set bids"
  by (auto simp: find_None_iff image_iff)

lemma validateCapabilities_subset:
  "validateCapabilities caps required \<longleftrightarrow> set required \<subseteq> set caps"
  by (auto simp: validateCapabilities_def list_all_iff)

text \<open>
  C7. \<open>submitBid\<close> checks in this order: a task that is not in the queue is
  \<open>UnknownTask\<close>; a bidder that already has a bid for the task is \<open>DuplicateBid\<close>; a
  required capability missing from the bid is \<open>CapabilityMismatch\<close>. In each of these
  cases the engine is left as it was. Otherwise the bid is appended to the bids of the task
  and \<open>bidSubmitted\<close> is emitted, and submitting the same bid again is \<open>DuplicateBid\<close>.
\<close>

theorem submitBid_outcomes:
  "(taskQueue st (taskId_bid bid) = None \<longrightarrow> submitBid st bid = (Some UnknownTask, st))
   \<and> (\<forall>task. taskQueue st (taskId_bid bid) = Some task \<longrightarrow>
         (let bids = (case agentBids st (taskId_bid bid) of None \<Rightarrow> [] | Some bs \<Rightarrow> bs) in
            (agentId bid \<in> agentId ` set bids \<longrightarrow> submitBid st bid = (Some DuplicateBid, st))
          \<and> (agentId bid \<notin> agentId ` set bids
               \<and> \<not> set (requiredCapabilities task) \<subseteq> set (capabilities bid)
                \<longrightarrow> submitBid st bid = (Some CapabilityMismatch, st))
          \<and> (agentId bid \<notin> agentId ` set bids
               \<and> set (requiredCapabilities task) \<subseteq> set (capabilities bid)
                \<longrightarrow> submitBid st bid =
                      (None, st\<lparr>agentBids := (agentBids st)(taskId_bid bid \<mapsto> bids @ [bid]),
                                events := events st @ [BidSubmitted bid]\<rparr>)
                    \<and> fst (submitBid (snd (submitBid st bid)) bid) = Some DuplicateBid)))"
proof (intro conjI allI impI)
  assume "taskQueue st (taskId_bid bid) = None"
  then show "submitBid st bid = (Some UnknownTask, st)"
    by (simp add: submitBid_def)
next
  fix task
  assume t: "taskQueue st (taskId_bid bid) = Some task"
  define bids where "bids = (case agentBids st (taskId_bid bid) of None \<Rightarrow> [] | Some bs \<Rightarrow> bs)"
  have sb: "submitBid st bid =
              (if find (\<lambda>b. agentId b = agentId bid) bids \<noteq> None then (Some DuplicateBid, st)
               else if \<not> validateCapabilities (capabilities bid) (requiredCapabilities task)
                 then (Some CapabilityMismatch, st)
               else (None,
                     emit (BidSubmitted bid)
                       (st\<lparr>agentBids := (agentBids st)(taskId_bid bid \<mapsto> bids @ [bid])\<rparr>)))"
    unfolding submitBid_def bids_def Let_def using t by simp
  have dup: "submitBid st bid = (Some DuplicateBid, st)" if "agentId bid \<in> agentId ` set bids"
    unfolding sb find_agentId using that by simp
  have cap: "submitBid st bid = (Some CapabilityMismatch, st)"
    if "agentId bid \<notin> agentId ` set bids"
      "\<not> set (requiredCapabilities task) \<subseteq> set (capabilities bid)"
    unfolding sb find_agentId validateCapabilities_subset using that by simp
  have ok: "submitBid st bid =
              (None, st\<lparr>agentBids := (agentBids st)(taskId_bid bid \<mapsto> bids @ [bid]),
                        events := events st @ [BidSubmitted bid]\<rparr>)"
    if "agentId bid \<notin> agentId ` set bids"
      "set (requiredCapabilities task) \<subseteq> set (capabilities bid)"
    unfolding sb find_agentId validateCapabilities_subset using that by (simp add: emit_def)
  have again: "fst (submitBid (snd (submitBid st bid)) bid) = Some DuplicateBid"
    if "agentId bid \<notin> agentId ` set bids"
      "set (requiredCapabilities task) \<subseteq> set (capabilities bid)"
    unfolding ok [OF that] using t
    by (simp add: submitBid_def Let_def find_agentId)
  show "let bids = (case agentBids st (taskId_bid bid) of None \<Rightarrow> [] | Some bs \<Rightarrow> bs) in
            (agentId bid \<in> agentId ` set bids \<longrightarrow> submitBid st bid = (Some DuplicateBid, st))
          \<and> (agentId bid \<notin> agentId ` set bids
               \<and> \<not> set (requiredCapabilities task) \<subseteq> set (capabilities bid)
                \<longrightarrow> submitBid st bid = (Some CapabilityMismatch, st))
          \<and> (agentId bid \<notin> agentId ` set bids
               \<and> set (requiredCapabilities task) \<subseteq> set (capabilities bid)
                \<longrightarrow> submitBid st bid =
                      (None, st\<lparr>agentBids := (agentBids st)(taskId_bid bid \<mapsto> bids @ [bid]),
                                events := events st @ [BidSubmitted bid]\<rparr>)
                    \<and> fst (submitBid (snd (submitBid st bid)) bid) = Some DuplicateBid)"
    unfolding Let_def bids_def [symmetric] using dup cap ok again by blast
qed

theorem submitBid_outcomes_witness:
  "fst (submitBid distributor0 (bid_of ''X'' 100 (9 / 10))) = Some UnknownTask
   \<and> fst (submitBid distributor_open (bid_of ''X'' 100 (9 / 10))) = None
   \<and> agentBids (snd (submitBid distributor_open (bid_of ''X'' 100 (9 / 10)))) ''t1''
       = Some [bid_of ''X'' 100 (9 / 10)]
   \<and> events (snd (submitBid distributor_open (bid_of ''X'' 100 (9 / 10))))
       = [TaskAnnounced task1, BidSubmitted (bid_of ''X'' 100 (9 / 10))]
   \<and> fst (submitBid (snd (submitBid distributor_open (bid_of ''X'' 100 (9 / 10))))
          (bid_of ''X'' 100 (9 / 10))) = Some DuplicateBid
   \<and> submitBid distributor_open ((bid_of ''X'' 100 (9 / 10))\<lparr>capabilities := [''vision'']\<rparr>) =
       (Some CapabilityMismatch, distributor_open)"
proof -
  have q: "taskQueue distributor0 (taskId_bid (bid_of ''X'' 100 (9 / 10))) = None"
    "taskQueue distributor_open (taskId_bid (bid_of ''X'' 100 (9 / 10))) = Some task1"
    "taskQueue distributor_open
       (taskId_bid ((bid_of ''X'' 100 (9 / 10))\<lparr>capabilities := [''vision'']\<rparr>)) = Some task1"
    "agentBids distributor_open ''t1'' = Some []"
    "events distributor_open = [TaskAnnounced task1]"
    by (simp_all add: distributor0_def distributor_open_def announceTask_def bid_of_def task1_def
        emit_def)
  from submitBid_outcomes [of distributor0 "bid_of ''X'' 100 (9 / 10)"]
    submitBid_outcomes [of distributor_open "bid_of ''X'' 100 (9 / 10)"]
    submitBid_outcomes [of distributor_open "(bid_of ''X'' 100 (9 / 10))\<lparr>capabilities := [''vision'']\<rparr>"]
    q
  show ?thesis
    by (simp add: bid_of_def task1_def)+
qed

section \<open>Scoring\<close>

lemma scored_simps [simp]:
  "agentId (withScore profiles now task bid) = agentId bid"
  "capabilities (withScore profiles now task bid) = capabilities bid"
  "score_bid (withScore profiles now task bid) = scoreBid profiles now task bid"
  by (simp_all add: withScore_def AgentBid.extend_def ScoredBid.fields_def)

lemma js_add_zero [simp]: "js_add (Num 0) x = x"
  by (cases x) simp_all

lemma length_filter_complement:
  "int (length xs) - int (length (filter P xs)) = int (length (filter (\<lambda>x. \<not> P x) xs))"
  using sum_length_filter_compl [of P xs] by simp


lemma calculateCapabilityScore_js:
  "calculateCapabilityScore caps required =
     js_min (js_add (js_div (of_nat (length (filter (\<lambda>cap. cap \<in> set required) caps)))
                       (of_nat (length required)))
               (js_min (Num (of_nat (length (filter (\<lambda>cap. cap \<notin> set required) caps)) * (5 / 100)))
                  (Num (2 / 10))))
            (Num 1)"
  unfolding calculateCapabilityScore_def Let_def length_filter_complement by simp


lemma scoreBid_js:
  "scoreBid profiles now task bid =
     (let total =
            js_add (js_add (js_add (js_add
              (js_mul (js_min (js_div (reputation bid) 100) (Num 1)) (Num (4 / 10)))
              (js_mul (Num (confidence_bid bid)) (Num (3 / 10))))
              (js_mul (js_max (Num 0)
                         (js_sub (Num 1) (js_div (requestedReward bid) (bounty task))))
                      (Num (3 / 10))))
              (js_mul (calculateCapabilityScore (capabilities bid) (requiredCapabilities task))
                 (Num (2 / 10))))
              (js_mul (js_max (Num 0)
                         (js_sub (Num 1) (js_div (estimatedTime bid) (deadline_task task - now))))
                 (Num (1 / 10)))
      in if (case profiles (agentId bid) of None \<Rightarrow> False | Some p \<Rightarrow> activeTaskCount p > 3)
         then js_mul total (Num (8 / 10)) else total)"
  unfolding scoreBid_def Let_def
    reputationWeight_def confidenceWeight_def priceWeight_def capabilityMatchBonus_def
  by (simp only: js_add_zero split: option.splits) simp



section \<open>The sort\<close>

lemma set_insert_sorted [simp]: "set (insert_sorted cmp x ys) = insert x (set ys)"
  by (induction ys) auto

lemma mset_insert_sorted [simp]: "mset (insert_sorted cmp x ys) = add_mset x (mset ys)"
  by (induction ys) simp_all

lemma mset_stable_sorted [simp]: "mset (stable_sorted cmp xs) = mset xs"
  unfolding stable_sorted_def by (induction xs) simp_all

lemma set_stable_sorted [simp]: "set (stable_sorted cmp xs) = set xs"
  using mset_stable_sorted [of cmp xs] by (metis set_mset_mset)

text \<open>The insertion sort is one sort that keeps the contract.\<close>

lemma sort_contract_stable_sorted: "sort_contract stable_sorted"
  by (simp add: sort_contract_def)

lemma sort_contract_mset: "sort_contract srt \<Longrightarrow> mset (srt cmp xs) = mset xs"
  by (simp add: sort_contract_def)

lemma sort_contract_length: "sort_contract srt \<Longrightarrow> length (srt cmp xs) = length xs"
  using sort_contract_mset [of srt cmp xs] by (metis size_mset)

lemma sort_contract_set: "sort_contract srt \<Longrightarrow> set (srt cmp xs) = set xs"
  using sort_contract_mset [of srt cmp xs] by (metis set_mset_mset)

text \<open>
  On bids with finite scores the comparator of \<open>scoreBids\<close> is the difference of two
  numbers: it is consistent, and it orders the bids as the key \<open>- score\<close> does.
\<close>

lemma comparator_finite:
  assumes "is_finite (score_bid x)" and "is_finite (score_bid y)"
  shows "comparator x y = Num (the_num (score_bid y) - the_num (score_bid x))"
  using assms by (cases "score_bid x"; cases "score_bid y") (simp_all add: comparator_def js_sub_def)

lemma comparator_consistent:
  assumes "\<forall>y \<in> S. is_finite (score_bid y)"
  shows "consistent_comparator comparator S"
  unfolding consistent_comparator_def
proof (intro ballI)
  fix a b c
  assume "a \<in> S" "b \<in> S" "c \<in> S"
  with assms have "is_finite (score_bid a)" "is_finite (score_bid b)" "is_finite (score_bid c)"
    by simp_all
  then show "comparator a b \<noteq> NaN
        \<and> comparator a a = Num 0
        \<and> (comparator a b = Num 0 \<longrightarrow> comparator b a = Num 0)
        \<and> (comparator a b = Num 0 \<and> comparator b c = Num 0 \<longrightarrow> comparator a c = Num 0)
        \<and> (js_gt (Num 0) (comparator a b) \<and> js_gt (Num 0) (comparator b c)
             \<longrightarrow> js_gt (Num 0) (comparator a c))
        \<and> (js_gt (comparator a b) (Num 0) \<and> js_gt (comparator b c) (Num 0)
             \<longrightarrow> js_gt (comparator a c) (Num 0))"
    by (simp add: comparator_finite)
qed

lemma js_gt_comparator:
  assumes "is_finite (score_bid x)" and "is_finite (score_bid y)"
  shows "js_gt (comparator x y) (Num 0) \<longleftrightarrow> the_num (score_bid x) < the_num (score_bid y)"
  using assms by (simp add: comparator_finite)

lemma insert_sorted_insort_key:
  assumes "is_finite (score_bid x)" and "\<forall>y \<in> set ys. is_finite (score_bid y)"
  shows "insert_sorted comparator x ys = insort_key (\<lambda>b. - the_num (score_bid b)) x ys"
  using assms by (induction ys) (auto simp: js_gt_comparator)

lemma stable_sorted_sort_key:
  assumes "\<forall>y \<in> set xs. is_finite (score_bid y)"
  shows "stable_sorted comparator xs = sort_key (\<lambda>b. - the_num (score_bid b)) xs"
  using assms
proof (induction xs)
  case Nil
  then show ?case by (simp add: stable_sorted_def)
next
  case (Cons x xs)
  then have "stable_sorted comparator xs = sort_key (\<lambda>b. - the_num (score_bid b)) xs"
    by simp
  moreover have "stable_sorted comparator (x # xs) = insert_sorted comparator x (stable_sorted comparator xs)"
    by (simp add: stable_sorted_def)
  moreover have "\<forall>y \<in> set (stable_sorted comparator xs). is_finite (score_bid y)"
    using Cons.prems by simp
  ultimately show ?case
    using Cons.prems insert_sorted_insort_key [of x "stable_sorted comparator xs"] by simp
qed

lemma js_ge_finite:
  assumes "is_finite a" and "is_finite b"
  shows "js_ge a b \<longleftrightarrow> the_num b \<le> the_num a"
  using assms by (cases a; cases b) simp_all

lemma descending_iff:
  assumes "\<forall>y \<in> set ys. is_finite (score_bid y)"
  shows "sorted_wrt (\<lambda>a b. js_ge (score_bid a) (score_bid b)) ys
           \<longleftrightarrow> sorted (map (\<lambda>b. - the_num (score_bid b)) ys)"
proof -
  have "sorted (map (\<lambda>b. - the_num (score_bid b)) ys)
          \<longleftrightarrow> sorted_wrt (\<lambda>a b. the_num (score_bid b) \<le> the_num (score_bid a)) ys"
    by (simp add: sorted_map)
  also have "\<dots> \<longleftrightarrow> sorted_wrt (\<lambda>a b. js_ge (score_bid a) (score_bid b)) ys"
  proof
    assume "sorted_wrt (\<lambda>a b. the_num (score_bid b) \<le> the_num (score_bid a)) ys"
    then show "sorted_wrt (\<lambda>a b. js_ge (score_bid a) (score_bid b)) ys"
      using assms by (auto simp: js_ge_finite elim!: sorted_wrt_mono_rel [rotated])
  next
    assume "sorted_wrt (\<lambda>a b. js_ge (score_bid a) (score_bid b)) ys"
    then show "sorted_wrt (\<lambda>a b. the_num (score_bid b) \<le> the_num (score_bid a)) ys"
      using assms by (auto simp: js_ge_finite elim!: sorted_wrt_mono_rel [rotated])
  qed
  finally show ?thesis ..
qed

lemma same_score_iff:
  assumes "is_finite (score_bid x)" and "is_finite (score_bid y)"
  shows "score_bid x = score_bid y \<longleftrightarrow> - the_num (score_bid x) = - the_num (score_bid y)"
  using assms by (cases "score_bid x"; cases "score_bid y") simp_all

lemma filter_key_score:
  fixes zs :: "ScoredBid list"
  assumes "\<forall>y \<in> set zs. is_finite (score_bid y)"
  shows "filter (\<lambda>b. - the_num (score_bid b) = - k) zs = filter (\<lambda>b. score_bid b = Num k) zs"
proof (rule filter_cong [OF refl])
  fix y
  assume "y \<in> set zs"
  with assms have "is_finite (score_bid y)" by simp
  then show "(- the_num (score_bid y) = - k) = (score_bid y = Num k)"
    by (cases "score_bid y") simp_all
qed

lemma ties_iff:
  fixes xs ys :: "ScoredBid list"
  assumes "\<forall>y \<in> set xs. is_finite (score_bid y)" and "set ys = set xs"
  shows "(\<forall>s. filter (\<lambda>b. score_bid b = s) ys = filter (\<lambda>b. score_bid b = s) xs)
           \<longleftrightarrow> (\<forall>k. filter (\<lambda>b. - the_num (score_bid b) = - k) ys
                      = filter (\<lambda>b. - the_num (score_bid b) = - k) xs)"
proof -
  have fy: "\<forall>y \<in> set ys. is_finite (score_bid y)"
    using assms by simp
  have none: "filter (\<lambda>b. score_bid b = s) zs = []"
    if "\<not> is_finite s" "\<forall>y \<in> set zs. is_finite (score_bid y)" for s and zs :: "ScoredBid list"
    using that by (auto simp: filter_empty_conv)
  show ?thesis
  proof
    assume l: "\<forall>s. filter (\<lambda>b. score_bid b = s) ys = filter (\<lambda>b. score_bid b = s) xs"
    show "\<forall>k. filter (\<lambda>b. - the_num (score_bid b) = - k) ys
                = filter (\<lambda>b. - the_num (score_bid b) = - k) xs"
      unfolding filter_key_score [OF fy] filter_key_score [OF assms(1)]
      using l by blast
  next
    assume r: "\<forall>k. filter (\<lambda>b. - the_num (score_bid b) = - k) ys
                = filter (\<lambda>b. - the_num (score_bid b) = - k) xs"
    then have r': "filter (\<lambda>b. score_bid b = Num k) ys = filter (\<lambda>b. score_bid b = Num k) xs" for k
      unfolding filter_key_score [OF fy] filter_key_score [OF assms(1)] by blast
    show "\<forall>s. filter (\<lambda>b. score_bid b = s) ys = filter (\<lambda>b. score_bid b = s) xs"
    proof
      fix s
      show "filter (\<lambda>b. score_bid b = s) ys = filter (\<lambda>b. score_bid b = s) xs"
      proof (cases "is_finite s")
        case True
        then obtain k where "s = Num k" by (cases s) auto
        then show ?thesis using r' by simp
      next
        case False
        then show ?thesis using none [OF False fy] none [OF False assms(1)] by simp
      qed
    qed
  qed
qed

lemma sorted_stable_sorted:
  assumes "\<forall>y \<in> set xs. is_finite (score_bid y)"
  shows "sorted_wrt (\<lambda>a b. js_ge (score_bid a) (score_bid b)) (stable_sorted comparator xs)"
proof -
  have "\<forall>y \<in> set (stable_sorted comparator xs). is_finite (score_bid y)"
    using assms by simp
  from descending_iff [OF this] show ?thesis
    unfolding stable_sorted_sort_key [OF assms] by simp
qed

lemma ties_stable_sorted:
  assumes "\<forall>y \<in> set xs. is_finite (score_bid y)"
  shows "filter (\<lambda>b. score_bid b = s) (stable_sorted comparator xs) = filter (\<lambda>b. score_bid b = s) xs"
proof -
  have "\<forall>k. filter (\<lambda>b. - the_num (score_bid b) = - k) (stable_sorted comparator xs)
              = filter (\<lambda>b. - the_num (score_bid b) = - k) xs"
    unfolding stable_sorted_sort_key [OF assms] by (intro allI sort_key_stable)
  with ties_iff [OF assms, of "stable_sorted comparator xs"] show ?thesis
    by simp
qed

text \<open>
  The arrangement is the only one: a list of the same bids that is in descending order of
  score and keeps the bids of equal score in their order is the list the insertion sort
  returns.
\<close>

lemma stable_sorted_unique:
  assumes "\<forall>y \<in> set xs. is_finite (score_bid y)" and "mset ys = mset xs"
    and "sorted_wrt (\<lambda>a b. js_ge (score_bid a) (score_bid b)) ys"
    and "\<forall>s. filter (\<lambda>b. score_bid b = s) ys = filter (\<lambda>b. score_bid b = s) xs"
  shows "ys = stable_sorted comparator xs"
proof -
  have set: "set ys = set xs"
    using assms(2) by (metis set_mset_mset)
  then have fin: "\<forall>y \<in> set ys. is_finite (score_bid y)"
    using assms(1) by simp
  have "sorted (map (\<lambda>b. - the_num (score_bid b)) ys)"
    using descending_iff [OF fin] assms(3) by simp
  moreover have "filter (\<lambda>x. - the_num (score_bid k) = - the_num (score_bid x)) ys
                   = filter (\<lambda>x. - the_num (score_bid k) = - the_num (score_bid x)) xs"
    for k :: ScoredBid
  proof -
    from ties_iff [OF assms(1) set] assms(4)
    have "filter (\<lambda>b. - the_num (score_bid b) = - the_num (score_bid k)) ys
            = filter (\<lambda>b. - the_num (score_bid b) = - the_num (score_bid k)) xs"
      by blast
    then show ?thesis by (simp only: eq_commute [of "- the_num (score_bid k)"])
  qed
  ultimately have "sort_key (\<lambda>b. - the_num (score_bid b)) xs = ys"
    using assms(2) by (intro properties_for_sort_key) simp_all
  then show ?thesis
    unfolding stable_sorted_sort_key [OF assms(1)] by simp
qed

text \<open>
  A score that is \<open>NaN\<close> compares with no score: a list of two or more bids that holds
  one is in descending order in no arrangement.
\<close>

lemma nan_never_descending:
  assumes "x \<in> set ys" and "score_bid x = NaN" and "2 \<le> length ys"
  shows "\<not> sorted_wrt (\<lambda>a b. js_ge (score_bid a) (score_bid b)) ys"
proof
  assume s: "sorted_wrt (\<lambda>a b. js_ge (score_bid a) (score_bid b)) ys"
  from assms(1) obtain i where i: "i < length ys" "ys ! i = x"
    by (auto simp: in_set_conv_nth)
  from assms(3) i(1) obtain j where j: "j < length ys" "j \<noteq> i"
    by (cases "i = 0") (auto intro: that [of 0] that [of "Suc 0"])
  have "js_ge (score_bid (ys ! i)) (score_bid (ys ! j)) \<or> js_ge (score_bid (ys ! j)) (score_bid (ys ! i))"
    using s i(1) j by (cases "i < j") (auto simp: sorted_wrt_iff_nth_less)
  then show False
    using assms(2) i(2) by (cases "score_bid (ys ! j)") simp_all
qed

lemma scores_of_scoreBids:
  assumes "sort_contract srt"
  shows "set (scoreBids srt profiles now bids task) = withScore profiles now task ` set bids"
  using sort_contract_set [OF assms] by (simp add: scoreBids_def)

lemma scoreBids_finite:
  assumes "sort_contract srt" and "\<forall>bid \<in> set bids. is_finite (scoreBid profiles now task bid)"
  shows "scoreBids srt profiles now bids task
           = stable_sorted comparator (map (withScore profiles now task) bids)"
proof -
  have "\<forall>y \<in> set (map (withScore profiles now task) bids). is_finite (score_bid y)"
    using assms(2) by simp
  from comparator_consistent [OF this] assms(1) show ?thesis
    unfolding scoreBids_def sort_contract_def by blast
qed

section \<open>Selection\<close>

lemma slice_to_take:
  assumes "0 \<le> e" and "e \<le> of_nat (length xs)"
  shows "slice_to xs e = take (nat \<lfloor>e\<rfloor>) xs"
proof -
  have "\<lfloor>e\<rfloor> \<le> int (length xs)"
    using assms(2) by (simp add: floor_le_iff)
  moreover have "0 \<le> \<lfloor>e\<rfloor>"
    using assms(1) by simp
  ultimately show ?thesis
    using assms(1) by (simp add: slice_to_def Let_def min_def)
qed

lemma select_loop_full:
  "maxA \<le> of_nat (length sel) \<Longrightarrow> select_loop minA maxA xs (sel, used) = (sel, used)"
  by (cases xs) simp_all

lemma select_loop_snoc:
  "select_loop minA maxA (xs @ [b]) (sel0, used0) =
     (case select_loop minA maxA xs (sel0, used0) of
        (sel, used) \<Rightarrow>
          if of_nat (length sel) < maxA
             \<and> (of_nat (length sel) < minA \<or> (\<exists>c \<in> set (capabilities b). c \<notin> used)
                  \<or> js_gt (score_bid b) (Num (8 / 10)))
          then (sel @ [b], used \<union> set (capabilities b))
          else (sel, used))"
proof (induction xs arbitrary: sel0 used0)
  case Nil
  show ?case
    by (auto simp: Let_def filter_empty_conv not_le)
next
  case (Cons x xs)
  show ?case
  proof (cases "maxA \<le> of_nat (length sel0)")
    case True
    then show ?thesis by (simp add: select_loop_full)
  next
    case False
    then show ?thesis
      by (simp add: Let_def Cons.IH del: length_greater_0_conv)
  qed
qed

lemma covered_snoc [simp]: "covered (sel @ [b]) = covered sel \<union> set (capabilities b)"
  by (auto simp: covered_def)

lemma select_loop_used:
  "snd (select_loop minA maxA xs (sel, covered sel)) =
     covered (fst (select_loop minA maxA xs (sel, covered sel)))"
proof (induction xs arbitrary: sel)
  case Nil
  then show ?case by simp
next
  case (Cons x xs)
  from Cons [of "sel @ [x]"] Cons [of sel] show ?case
    by (simp add: Let_def del: length_greater_0_conv)
qed

lemma selected_after_snoc:
  "selected_after minA maxA (xs @ [b]) =
     (let sel = selected_after minA maxA xs in
      if of_nat (length sel) < maxA
         \<and> (of_nat (length sel) < minA \<or> (\<exists>c \<in> set (capabilities b). c \<notin> covered sel)
              \<or> js_gt (score_bid b) (Num (8 / 10)))
      then sel @ [b] else sel)"
proof -
  obtain sel used where su: "select_loop minA maxA xs ([], {}) = (sel, used)"
    by (cases "select_loop minA maxA xs ([], {})")
  have "used = covered sel"
    using select_loop_used [of minA maxA xs "[]"] su by (simp add: covered_def)
  then show ?thesis
    unfolding select_loop_snoc su Let_def by simp
qed

lemma select_loop_prefix: "\<exists>zs. fst (select_loop minA maxA xs (sel, used)) = sel @ zs"
proof (induction xs arbitrary: sel used)
  case Nil
  then show ?case by simp
next
  case (Cons x xs)
  from Cons [of "sel @ [x]" "used \<union> set (capabilities x)"] Cons [of sel used]
  show ?case
    by (auto simp: Let_def simp del: length_greater_0_conv)
qed

lemma selected_after_hd:
  assumes "xs \<noteq> []" and "0 < minA" and "0 < maxA"
  shows "\<exists>zs. selected_after minA maxA xs = hd xs # zs"
proof -
  obtain b rest where xs: "xs = b # rest"
    using assms(1) by (cases xs) auto
  have "selected_after minA maxA xs =
          fst (select_loop minA maxA rest ([] @ [b], {} \<union> set (capabilities b)))"
    using assms(2,3) by (simp add: xs Let_def)
  with select_loop_prefix [of minA maxA rest "[] @ [b]" "{} \<union> set (capabilities b)"]
  show ?thesis
    by (auto simp: xs)
qed

lemma selectOptimalAgents_fallback:
  "selectOptimalAgents xs minA maxA =
     (let sel = selected_after minA maxA xs in
      if of_nat (length sel) < minA \<and> minA \<le> of_nat (length xs)
      then take (nat \<lfloor>minA\<rfloor>) xs else sel)"
proof (cases "of_nat (length (selected_after minA maxA xs)) < minA \<and> minA \<le> of_nat (length xs)")
  case True
  then have "0 \<le> minA"
    by (metis le_less_trans less_imp_le of_nat_0_le_iff)
  with True have "slice_to xs minA = take (nat \<lfloor>minA\<rfloor>) xs"
    by (simp add: slice_to_take)
  with True show ?thesis
    by (simp add: selectOptimalAgents_def Let_def)
next
  case False
  then show ?thesis
    by (auto simp: selectOptimalAgents_def Let_def)
qed

lemma selectOptimalAgents_hd:
  assumes "xs \<noteq> []" and "0 < minA" and "0 < maxA"
  shows "selectOptimalAgents xs minA maxA \<noteq> [] \<and> hd (selectOptimalAgents xs minA maxA) = hd xs"
proof -
  from selected_after_hd [OF assms] obtain zs where z: "selected_after minA maxA xs = hd xs # zs"
    by blast
  show ?thesis
  proof (cases "of_nat (length (selected_after minA maxA xs)) < minA \<and> minA \<le> of_nat (length xs)")
    case True
    then have "1 < minA"
      using z by simp
    then have "1 \<le> \<lfloor>minA\<rfloor>"
      by (simp add: le_floor_iff)
    then have "0 < nat \<lfloor>minA\<rfloor>"
      by simp
    with assms(1) have "take (nat \<lfloor>minA\<rfloor>) xs \<noteq> [] \<and> hd (take (nat \<lfloor>minA\<rfloor>) xs) = hd xs"
      by (cases xs; cases "nat \<lfloor>minA\<rfloor>") simp_all
    with True show ?thesis
      unfolding selectOptimalAgents_fallback Let_def by simp
  next
    case False
    then show ?thesis
      unfolding selectOptimalAgents_fallback Let_def using z by auto
  qed
qed

section \<open>Votes arriving from the transport, and the shape of the vote maps\<close>

lemma proposals_handleRemoteVote:
  assumes "proposals st pid = Some p" and "status p = Pending"
    and "\<not> has (supporters p) a" and "\<not> has (rejectors p) a"
  shows "proposals (handleRemoteVote st now pid a support rsn) pid =
           Some (let p' = with_vote p a \<lparr>voter = a, weight = getAgentWeight st a,
                                          timestamp_vote = now, reason = rsn\<rparr> support
                 in if early (config st) p' then decided (config st) p' else p')"
proof -
  define v where "v = \<lparr>voter = a, weight = getAgentWeight st a, timestamp_vote = now, reason = rsn\<rparr>"
  define st1 where "st1 = st\<lparr>proposals := (proposals st)(pid \<mapsto> with_vote p a v support)\<rparr>"
  have st1: "proposals st1 pid = Some (with_vote p a v support)"
    "status (with_vote p a v support) = Pending" "config st1 = config st"
    using assms(2) by (simp_all add: st1_def)
  have "handleRemoteVote st now pid a support rsn =
          emit_ce (VoteReceived pid v support) (checkEarlyConsensus st1 pid)"
    using assms unfolding handleRemoteVote_def Let_def st1_def v_def with_vote_def by simp
  then have "proposals (handleRemoteVote st now pid a support rsn) pid =
          proposals (checkEarlyConsensus st1 pid) pid"
    by simp
  also have "\<dots> = Some (if early (config st) (with_vote p a v support)
                         then decided (config st) (with_vote p a v support)
                         else with_vote p a v support)"
    using proposals_checkEarlyConsensus [OF st1(1,2)] st1(3) by simp
  finally show ?thesis
    unfolding v_def Let_def .
qed

lemma has_iff: "has m k \<longleftrightarrow> k \<in> fst ` set m"
  by (simp add: has_def map_of_eq_None_iff)

lemma wf_votes_proposeSolution:
  "proposals (snd (proposeSolution st now ok pid tid sol a conf)) pid = Some p \<Longrightarrow> wf_votes p"
  unfolding proposals_proposeSolution by (auto simp: wf_votes_def)

lemma wf_votes_handleRemoteProposal:
  assumes "proposals st pid = None"
    and "proposals (handleRemoteProposal st now pid tid sol a conf dl) pid = Some p"
  shows "wf_votes p \<and> map (\<lambda>kv. weight (snd kv)) (supporters p) = [getAgentWeight st a]"
  using assms by (auto simp: handleRemoteProposal_def Let_def wf_votes_def)

lemma wf_votes_with_vote:
  assumes "wf_votes p" and "\<not> has (supporters p) a" and "\<not> has (rejectors p) a"
    and "voter v = a"
  shows "wf_votes (with_vote p a v support)"
proof -
  have upd: "AList.update a v m = m @ [(a, v)]" if "\<not> has m a" for m :: votes
    using that by (induction m) (auto simp: has_iff)
  show ?thesis
    using assms by (cases support) (auto simp: wf_votes_def with_vote_def upd has_iff)
qed

lemma wf_votes_decided [simp]: "wf_votes (decided cfg p) = wf_votes p"
  by (simp add: wf_votes_def)


text \<open>
  A vote accepted by \<open>voteOnProposal\<close> keeps the vote maps in this shape, so the votes
  of a proposal built by \<open>proposeSolution\<close> and \<open>voteOnProposal\<close> come from different
  accounts.
\<close>

lemma wf_votes_voteOnProposal:
  assumes "fst (voteOnProposal st now ok pid a support rsn) = None"
    and "\<forall>p. proposals st pid = Some p \<longrightarrow> wf_votes p"
    and "proposals (snd (voteOnProposal st now ok pid a support rsn)) pid = Some q"
  shows "wf_votes q"
proof -
  define v where "v = \<lparr>voter = a, weight = getAgentWeight st a, timestamp_vote = now, reason = rsn\<rparr>"
  from assms(1) obtain p where p: "proposals st pid = Some p"
    and nh: "\<not> has (supporters p) a" "\<not> has (rejectors p) a"
    by (auto simp: voteOnProposal_def Let_def split: option.splits if_splits)
  from proposals_voteOnProposal [OF assms(1)] p assms(3)
  have q: "q = (if early (config st) (with_vote p a v support)
                then decided (config st) (with_vote p a v support)
                else with_vote p a v support)"
    unfolding v_def Let_def by auto
  have "wf_votes (with_vote p a v support)"
    using wf_votes_with_vote [of p a v support] assms(2) p nh by (simp add: v_def)
  then show ?thesis
    unfolding q by simp
qed

section \<open>Early termination\<close>







text \<open>
  When the transport refuses the vote, \<open>voteOnProposal\<close> ends after it has stored the
  vote: the check is not run and nothing is emitted.
\<close>

lemma voteOnProposal_broadcast_failed:
  assumes "proposals st pid = Some p" and "status p = Pending" and "\<not> now > deadline_prop p"
    and "\<not> has (supporters p) a" and "\<not> has (rejectors p) a"
  shows "voteOnProposal st now False pid a support rsn =
           (Some BroadcastFailed,
            st\<lparr>proposals := (proposals st)(pid \<mapsto>
                  with_vote p a \<lparr>voter = a, weight = getAgentWeight st a,
                                 timestamp_vote = now, reason = rsn\<rparr> support)\<rparr>)"
  using assms unfolding voteOnProposal_def Let_def with_vote_def by simp




section \<open>The selection rule and the assignment\<close>

lemma updateAgentTaskCount_frame [simp]:
  "activeAssignments (updateAgentTaskCount st a d) = activeAssignments st"
  "events (updateAgentTaskCount st a d) = events st"
  by (simp_all add: updateAgentTaskCount_def split: option.splits)

lemma fold_updateAgentTaskCount_frame [simp]:
  "activeAssignments (fold (\<lambda>a s. updateAgentTaskCount s a d) as st) = activeAssignments st"
  "events (fold (\<lambda>a s. updateAgentTaskCount s a d) as st) = events st"
  by (induction as arbitrary: st) simp_all

lemma or_default_case:
  "or_default x d = (case x of None \<Rightarrow> d | Some n \<Rightarrow> if n = 0 then d else n)"
  by (simp add: or_default_def)

lemma evaluateBidsAndAssign_queued:
  assumes "taskQueue st tid = Some task" and "agentBids st tid = Some bids" and "bids \<noteq> []"
  shows "(let selected = selectOptimalAgents (scoreBids srt (agentProfiles st) now bids task)
                            (or_default (minAgents task) 1) (or_default (maxAgents task) 5);
              assignment = \<lparr>taskId_asg = tid, assignedAgents = map agentId selected,
                            totalReward = bounty task, deadline_asg = deadline_task task\<rparr>
          in if selected = []
             then evaluateBidsAndAssign srt st now onChainOk tid =
                    (None, st\<lparr>events := events st
                                  @ [TaskAssignmentFailed tid ''No suitable agents found'']\<rparr>)
             else activeAssignments (snd (evaluateBidsAndAssign srt st now onChainOk tid)) tid
                    = Some assignment
                  \<and> events (snd (evaluateBidsAndAssign srt st now onChainOk tid))
                    = (if onChainOk then events st @ [TaskAssigned assignment] else events st))"
proof -
  obtain b bs where bids: "bids = b # bs"
    using assms(3) by (cases bids) auto
  show ?thesis
    using assms(1,2) unfolding evaluateBidsAndAssign_def bids
    by (simp add: Let_def emit_def)
qed

text \<open>
  C4, as the code has it. The scored bids are the submitted bids in another order. When
  every score is a finite number they come in descending order of score, and the bids of
  equal score keep their order of submission. Walking the list, the loop selects a bid
  exactly when fewer than the maximum are selected so far and either fewer than the
  minimum are, or the bid has a capability that no selected bid has, or its score exceeds
  0.8. When the loop ends with fewer than the minimum and the list has at least that many
  bids, the first bids of the list are taken instead, as many as the minimum (rounded
  down). The minimum and the maximum are the task's \<open>minAgents\<close> and \<open>maxAgents\<close>,
  replaced by 1 and 5 when they are absent or zero.
\<close>

theorem selection_rule:
  assumes "sort_contract srt"
  shows
  "mset (scoreBids srt profiles now bids task) = mset (map (withScore profiles now task) bids)
   \<and> ((\<forall>bid \<in> set bids. is_finite (scoreBid profiles now task bid)) \<longrightarrow>
         sorted_wrt (\<lambda>a b. js_ge (score_bid a) (score_bid b)) (scoreBids srt profiles now bids task)
       \<and> (\<forall>s. filter (\<lambda>b. score_bid b = s) (scoreBids srt profiles now bids task)
                = filter (\<lambda>b. score_bid b = s) (map (withScore profiles now task) bids)))
   \<and> selected_after minA maxA [] = []
   \<and> selected_after minA maxA (xs @ [b]) =
       (let sel = selected_after minA maxA xs in
        if of_nat (length sel) < maxA
           \<and> (of_nat (length sel) < minA \<or> (\<exists>c \<in> set (capabilities b). c \<notin> covered sel)
                \<or> js_gt (score_bid b) (Num (8 / 10)))
        then sel @ [b] else sel)
   \<and> selectOptimalAgents xs minA maxA =
       (let sel = selected_after minA maxA xs in
        if of_nat (length sel) < minA \<and> minA \<le> of_nat (length xs)
        then take (nat \<lfloor>minA\<rfloor>) xs else sel)
   \<and> (taskQueue st tid = Some task \<and> agentBids st tid = Some bids \<and> bids \<noteq> [] \<longrightarrow>
        (let minimum = (case minAgents task of None \<Rightarrow> 1 | Some n \<Rightarrow> if n = 0 then 1 else n);
             maximum = (case maxAgents task of None \<Rightarrow> 5 | Some n \<Rightarrow> if n = 0 then 5 else n);
             selected = selectOptimalAgents (scoreBids srt (agentProfiles st) now bids task)
                          minimum maximum
         in if selected = []
            then evaluateBidsAndAssign srt st now onChainOk tid =
                   (None, st\<lparr>events := events st
                                 @ [TaskAssignmentFailed tid ''No suitable agents found'']\<rparr>)
            else activeAssignments (snd (evaluateBidsAndAssign srt st now onChainOk tid)) tid
                   = Some \<lparr>taskId_asg = tid, assignedAgents = map agentId selected,
                           totalReward = bounty task, deadline_asg = deadline_task task\<rparr>))"
proof -
  have fin: "\<forall>y \<in> set (map (withScore profiles now task) bids). is_finite (score_bid y)"
    if "\<forall>bid \<in> set bids. is_finite (scoreBid profiles now task bid)"
    using that by simp
  have "mset (scoreBids srt profiles now bids task) = mset (map (withScore profiles now task) bids)"
    unfolding scoreBids_def by (rule sort_contract_mset [OF assms])
  moreover have "sorted_wrt (\<lambda>a b. js_ge (score_bid a) (score_bid b)) (scoreBids srt profiles now bids task)"
    if "\<forall>bid \<in> set bids. is_finite (scoreBid profiles now task bid)"
    unfolding scoreBids_finite [OF assms that] by (rule sorted_stable_sorted [OF fin [OF that]])
  moreover have "filter (\<lambda>b. score_bid b = s) (scoreBids srt profiles now bids task)
                = filter (\<lambda>b. score_bid b = s) (map (withScore profiles now task) bids)"
    if "\<forall>bid \<in> set bids. is_finite (scoreBid profiles now task bid)" for s
    unfolding scoreBids_finite [OF assms that] by (rule ties_stable_sorted [OF fin [OF that]])
  moreover have "selected_after minA maxA [] = []"
    by simp
  moreover note selected_after_snoc [of minA maxA xs b]
  moreover note selectOptimalAgents_fallback [of xs minA maxA]
  moreover have
    "(let minimum = (case minAgents task of None \<Rightarrow> 1 | Some n \<Rightarrow> if n = 0 then 1 else n);
             maximum = (case maxAgents task of None \<Rightarrow> 5 | Some n \<Rightarrow> if n = 0 then 5 else n);
             selected = selectOptimalAgents (scoreBids srt (agentProfiles st) now bids task)
                          minimum maximum
         in if selected = []
            then evaluateBidsAndAssign srt st now onChainOk tid =
                   (None, st\<lparr>events := events st
                                 @ [TaskAssignmentFailed tid ''No suitable agents found'']\<rparr>)
            else activeAssignments (snd (evaluateBidsAndAssign srt st now onChainOk tid)) tid
                   = Some \<lparr>taskId_asg = tid, assignedAgents = map agentId selected,
                           totalReward = bounty task, deadline_asg = deadline_task task\<rparr>)"
    if "taskQueue st tid = Some task" "agentBids st tid = Some bids" "bids \<noteq> []"
    using evaluateBidsAndAssign_queued [OF that, of srt now onChainOk]
    unfolding Let_def or_default_case by (simp split: if_splits)
  ultimately show ?thesis
    by blast
qed

lemma three_scores:
  "scoreBid Map.empty 0 task1 (bid_of ''Z'' 10 (1 / 5)) = Num (5499 / 10000)"
  "scoreBid Map.empty 0 task1 (bid_of ''Y'' 50 (1 / 2)) = Num (7999 / 10000)"
  "scoreBid Map.empty 0 task1 (bid_of ''X'' 100 (9 / 10)) = Num (11199 / 10000)"
  by (simp_all add: scoreBid_js calculateCapabilityScore_js task1_def bid_of_def js_sub_def)

lemma three_sorted:
  "scoreBids stable_sorted Map.empty 0 three_bids task1 =
     [withScore Map.empty 0 task1 (bid_of ''X'' 100 (9 / 10)),
      withScore Map.empty 0 task1 (bid_of ''Y'' 50 (1 / 2)),
      withScore Map.empty 0 task1 (bid_of ''Z'' 10 (1 / 5))]"
  by (simp add: scoreBids_def stable_sorted_def three_bids_def comparator_def three_scores js_sub_def)

lemma three_capabilities [simp]:
  "capabilities (bid_of a r c) = [''nlp'']" "agentId (bid_of a r c) = a"
  by (simp_all add: bid_of_def)

lemma three_selected:
  "map agentId (selectOptimalAgents (scoreBids stable_sorted Map.empty 0 three_bids task1) 1 3)
     = [''X'']"
  "map agentId (selectOptimalAgents (scoreBids stable_sorted Map.empty 0 three_bids task1) 1 1)
     = [''X'']"
  by (simp_all add: three_sorted selectOptimalAgents_def three_scores)

theorem selection_rule_witness:
  "sort_contract (stable_sorted :: ScoredBid array_sort)
   \<and> list_all (\<lambda>bid. is_finite (scoreBid Map.empty 0 task1 bid)) three_bids
   \<and> map agentId three_bids = [''Z'', ''Y'', ''X'']
   \<and> map agentId (scoreBids stable_sorted Map.empty 0 three_bids task1) = [''X'', ''Y'', ''Z'']
   \<and> sorted_wrt (\<lambda>a b. js_ge (score_bid a) (score_bid b))
        (scoreBids stable_sorted Map.empty 0 three_bids task1)
   \<and> map agentId (selectOptimalAgents (scoreBids stable_sorted Map.empty 0 three_bids task1) 1 3)
       = [''X'']
   \<and> map agentId (selectOptimalAgents (scoreBids stable_sorted Map.empty 0 three_bids task1) 1 1)
       = [''X'']"
proof -
  have f: "\<forall>bid \<in> set three_bids. is_finite (scoreBid Map.empty 0 task1 bid)"
    by (simp add: three_bids_def three_scores)
  from selection_rule [OF sort_contract_stable_sorted, of Map.empty 0 three_bids task1] f
  have "sorted_wrt (\<lambda>a b. js_ge (score_bid a) (score_bid b))
          (scoreBids stable_sorted Map.empty 0 three_bids task1)"
    by blast
  moreover have "map agentId three_bids = [''Z'', ''Y'', ''X'']"
    by (simp add: three_bids_def)
  moreover have "map agentId (scoreBids stable_sorted Map.empty 0 three_bids task1) = [''X'', ''Y'', ''Z'']"
    by (simp add: three_sorted)
  ultimately show ?thesis
    using f three_selected sort_contract_stable_sorted by (simp add: list_all_iff)
qed

text \<open>
  A bid that asks for no reward on a task without bounty has the price ratio \<open>1 - 0 / 0\<close>:
  its score is \<open>NaN\<close>. The sort then leaves the best bid last, and the list is not in
  descending order; by \<open>nan_never_descending\<close> no arrangement of it is.
\<close>

lemma free_scores:
  "scoreBid Map.empty 0 task_free (bid_of ''Y'' 50 (1 / 2)) = Num (6499 / 10000)"
  "scoreBid Map.empty 0 task_free ((bid_of ''N'' 10 (1 / 5))\<lparr>requestedReward := 0\<rparr>) = NaN"
  "scoreBid Map.empty 0 task_free (bid_of ''X'' 100 (9 / 10)) = Num (9699 / 10000)"
  by (simp_all add: scoreBid_js calculateCapabilityScore_js task_free_def task1_def bid_of_def
      js_sub_def)

lemma free_sorted:
  "scoreBids stable_sorted Map.empty 0 bids_free task_free =
     [withScore Map.empty 0 task_free (bid_of ''Y'' 50 (1 / 2)),
      withScore Map.empty 0 task_free ((bid_of ''N'' 10 (1 / 5))\<lparr>requestedReward := 0\<rparr>),
      withScore Map.empty 0 task_free (bid_of ''X'' 100 (9 / 10))]"
  by (simp add: scoreBids_def stable_sorted_def bids_free_def comparator_def free_scores js_sub_def)

theorem selection_rule_counterexample:
  "scoreBid Map.empty 0 task_free ((bid_of ''N'' 10 (1 / 5))\<lparr>requestedReward := 0\<rparr>) = NaN
   \<and> map agentId (scoreBids stable_sorted Map.empty 0 bids_free task_free) = [''Y'', ''N'', ''X'']
   \<and> map score_bid (scoreBids stable_sorted Map.empty 0 bids_free task_free)
       = [Num (6499 / 10000), NaN, Num (9699 / 10000)]
   \<and> \<not> sorted_wrt (\<lambda>a b. js_ge (score_bid a) (score_bid b))
         (scoreBids stable_sorted Map.empty 0 bids_free task_free)"
  by (simp add: free_sorted free_scores)

text \<open>Whatever the sort of the implementation does with such a list, it is not sorted.\<close>

lemma nan_score_unsorted:
  assumes "sort_contract srt" and "bid \<in> set bids"
    and "scoreBid profiles now task bid = NaN" and "2 \<le> length bids"
  shows "\<not> sorted_wrt (\<lambda>a b. js_ge (score_bid a) (score_bid b))
           (scoreBids srt profiles now bids task)"
proof (rule nan_never_descending)
  show "withScore profiles now task bid \<in> set (scoreBids srt profiles now bids task)"
    using assms(2) unfolding scores_of_scoreBids [OF assms(1)] by simp
  show "score_bid (withScore profiles now task bid) = NaN"
    using assms(3) by simp
  show "2 \<le> length (scoreBids srt profiles now bids task)"
    using assms(4) sort_contract_length [OF assms(1)] by (simp add: scoreBids_def)
qed

lemma or_default_pos:
  assumes "\<forall>n. x = Some n \<longrightarrow> 0 \<le> n" and "0 < d"
  shows "0 < or_default x d"
  using assms by (cases x) (auto simp: or_default_def)

lemma hd_descending:
  assumes "sorted_wrt (\<lambda>a b. js_ge (score_bid a) (score_bid b)) xs"
    and "\<forall>y \<in> set xs. is_finite (score_bid y)" and "b \<in> set xs"
  shows "js_ge (score_bid (hd xs)) (score_bid b)"
proof (cases xs)
  case Nil
  with assms(3) show ?thesis
    by simp
next
  case (Cons x rest)
  have "js_ge (score_bid x) (score_bid x)"
    using assms(2) by (simp add: Cons js_ge_finite)
  with assms(1,3) show ?thesis
    by (auto simp: Cons)
qed

text \<open>
  C10, as the code has it. When the task is in the queue, has at least one bid, and
  neither its \<open>minAgents\<close> nor its \<open>maxAgents\<close> is negative, the effective bounds are
  positive and the loop of the selection selects the first bid of the sorted list, which
  has the greatest score when every score is a finite number. So the selection is not
  empty; the assignment of the selected agents is stored, and the only event is
  \<open>taskAssigned\<close> (emitted once the ledger call has succeeded): the failure
  \<open>No suitable agents found\<close> is not emitted.
\<close>

theorem assignment_created:
  assumes "sort_contract srt"
    and "taskQueue st tid = Some task" and "agentBids st tid = Some bids" and "bids \<noteq> []"
    and "\<forall>n. minAgents task = Some n \<longrightarrow> 0 \<le> n"
    and "\<forall>n. maxAgents task = Some n \<longrightarrow> 0 \<le> n"
  shows "(let scoredBids = scoreBids srt (agentProfiles st) now bids task;
              minA = (case minAgents task of None \<Rightarrow> 1 | Some n \<Rightarrow> if n = 0 then 1 else n);
              maxA = (case maxAgents task of None \<Rightarrow> 5 | Some n \<Rightarrow> if n = 0 then 5 else n);
              selectedAgents = selectOptimalAgents scoredBids minA maxA;
              assignment = \<lparr>taskId_asg = tid, assignedAgents = map agentId selectedAgents,
                            totalReward = bounty task, deadline_asg = deadline_task task\<rparr>;
              st' = snd (evaluateBidsAndAssign srt st now onChainOk tid)
          in 0 < minA \<and> 0 < maxA
             \<and> selected_after minA maxA scoredBids \<noteq> []
             \<and> hd (selected_after minA maxA scoredBids) = hd scoredBids
             \<and> selectedAgents \<noteq> [] \<and> hd selectedAgents = hd scoredBids
             \<and> ((\<forall>bid \<in> set bids. is_finite (scoreBid (agentProfiles st) now task bid)) \<longrightarrow>
                  (\<forall>b \<in> set scoredBids. js_ge (score_bid (hd selectedAgents)) (score_bid b)))
             \<and> activeAssignments st' tid = Some assignment
             \<and> events st' = (if onChainOk then events st @ [TaskAssigned assignment] else events st))"
proof -
  define scoredBids where "scoredBids = scoreBids srt (agentProfiles st) now bids task"
  define minA where "minA = or_default (minAgents task) 1"
  define maxA where "maxA = or_default (maxAgents task) 5"
  define selectedAgents where "selectedAgents = selectOptimalAgents scoredBids minA maxA"
  define assignment where
    "assignment = \<lparr>taskId_asg = tid, assignedAgents = map agentId selectedAgents,
                   totalReward = bounty task, deadline_asg = deadline_task task\<rparr>"
  have pos: "0 < minA" "0 < maxA"
    using assms(5,6) by (simp_all add: minA_def maxA_def or_default_pos)
  have "length scoredBids = length bids"
    unfolding scoredBids_def scoreBids_def by (simp add: sort_contract_length [OF assms(1)])
  with assms(4) have ne: "scoredBids \<noteq> []"
    by auto
  from selected_after_hd [OF ne pos] obtain zs where
    "selected_after minA maxA scoredBids = hd scoredBids # zs"
    by blast
  then have walk: "selected_after minA maxA scoredBids \<noteq> []"
    "hd (selected_after minA maxA scoredBids) = hd scoredBids"
    by simp_all
  have sel: "selectedAgents \<noteq> []" "hd selectedAgents = hd scoredBids"
    using selectOptimalAgents_hd [OF ne pos] by (simp_all add: selectedAgents_def)
  have top: "\<forall>b \<in> set scoredBids. js_ge (score_bid (hd selectedAgents)) (score_bid b)"
    if f: "\<forall>bid \<in> set bids. is_finite (scoreBid (agentProfiles st) now task bid)"
  proof
    fix b
    assume b: "b \<in> set scoredBids"
    have fin: "\<forall>y \<in> set (map (withScore (agentProfiles st) now task) bids). is_finite (score_bid y)"
      using f by simp
    have "sorted_wrt (\<lambda>a b. js_ge (score_bid a) (score_bid b)) scoredBids"
      unfolding scoredBids_def scoreBids_finite [OF assms(1) f]
      by (rule sorted_stable_sorted [OF fin])
    moreover have "\<forall>y \<in> set scoredBids. is_finite (score_bid y)"
      using f unfolding scoredBids_def scores_of_scoreBids [OF assms(1)] by simp
    ultimately show "js_ge (score_bid (hd selectedAgents)) (score_bid b)"
      unfolding sel(2) using b by (rule hd_descending)
  qed
  from evaluateBidsAndAssign_queued [OF assms(2,3,4), of srt now onChainOk] sel(1)
  have "activeAssignments (snd (evaluateBidsAndAssign srt st now onChainOk tid)) tid = Some assignment"
    and "events (snd (evaluateBidsAndAssign srt st now onChainOk tid)) =
          (if onChainOk then events st @ [TaskAssigned assignment] else events st)"
    unfolding Let_def scoredBids_def [symmetric] minA_def [symmetric] maxA_def [symmetric]
      selectedAgents_def [symmetric] assignment_def [symmetric]
    by simp_all
  with sel walk pos top show ?thesis
    unfolding Let_def or_default_case [symmetric] scoredBids_def [symmetric] minA_def [symmetric]
      maxA_def [symmetric] selectedAgents_def [symmetric] assignment_def [symmetric]
    by simp
qed

theorem assignment_created_witness:
  "sort_contract (stable_sorted :: ScoredBid array_sort)
   \<and> taskQueue distributor_bids ''t1'' = Some task1
   \<and> agentBids distributor_bids ''t1'' = Some three_bids \<and> three_bids \<noteq> []
   \<and> minAgents task1 = Some 1 \<and> maxAgents task1 = Some 3
   \<and> map_option assignedAgents
       (activeAssignments (snd (evaluateBidsAndAssign stable_sorted distributor_bids 0 True ''t1''))
          ''t1'')
     = Some [''X'']
   \<and> events (snd (evaluateBidsAndAssign stable_sorted distributor_bids 0 True ''t1''))
     = [TaskAnnounced task1,
        TaskAssigned \<lparr>taskId_asg = ''t1'', assignedAgents = [''X''], totalReward = 100,
                       deadline_asg = 1000000\<rparr>]"
proof -
  have h: "taskQueue distributor_bids ''t1'' = Some task1"
    "agentBids distributor_bids ''t1'' = Some three_bids" "three_bids \<noteq> []"
    by (simp_all add: distributor_bids_def distributor_open_def announceTask_def distributor0_def
        emit_def task1_def three_bids_def)
  have b: "\<forall>n. minAgents task1 = Some n \<longrightarrow> 0 \<le> n" "\<forall>n. maxAgents task1 = Some n \<longrightarrow> 0 \<le> n"
    by (simp_all add: task1_def)
  have p: "agentProfiles distributor_bids = Map.empty"
    "events distributor_bids = [TaskAnnounced task1]"
    "minAgents task1 = Some 1" "maxAgents task1 = Some 3"
    "bounty task1 = 100" "deadline_task task1 = 1000000"
    by (simp_all add: distributor_bids_def distributor_open_def announceTask_def distributor0_def
        emit_def task1_def)
  from assignment_created [OF sort_contract_stable_sorted h b, of 0 True] show ?thesis
    using h sort_contract_stable_sorted by (simp add: Let_def p three_selected)
qed

text \<open>
  With \<open>minAgents\<close> and \<open>maxAgents\<close> at \<open>-1\<close> the defaults do not apply, the loop stops at
  the first bid and the fallback is not taken: nothing is selected and the failure is
  emitted. And on the task without bounty the bid without score keeps the best bid behind
  it: the first bid is selected, the best one is not.
\<close>

lemma low_scores:
  "scoreBid Map.empty 0 task_free (bid_of ''Y'' 50 (1 / 2)) = Num (6499 / 10000)"
  "scoreBid Map.empty 0 task_free ((bid_of ''N'' 10 (1 / 5))\<lparr>requestedReward := 0\<rparr>) = NaN"
  "scoreBid Map.empty 0 task_free (bid_of ''W'' 60 (1 / 2)) = Num (6899 / 10000)"
  by (simp_all add: scoreBid_js calculateCapabilityScore_js task_free_def task1_def bid_of_def
      js_sub_def)

lemma low_sorted:
  "scoreBids stable_sorted Map.empty 0 bids_low task_free =
     [withScore Map.empty 0 task_free (bid_of ''Y'' 50 (1 / 2)),
      withScore Map.empty 0 task_free ((bid_of ''N'' 10 (1 / 5))\<lparr>requestedReward := 0\<rparr>),
      withScore Map.empty 0 task_free (bid_of ''W'' 60 (1 / 2))]"
  by (simp add: scoreBids_def stable_sorted_def bids_low_def comparator_def low_scores js_sub_def)

lemma neg_state:
  "taskQueue distributor_neg ''t1'' = Some task_neg"
  "agentBids distributor_neg ''t1'' = Some three_bids"
  "agentProfiles distributor_neg = Map.empty"
  "events distributor_neg = [TaskAnnounced task_neg]"
  "activeAssignments distributor_neg = Map.empty"
  "minAgents task_neg = Some (- 1)" "maxAgents task_neg = Some (- 1)"
  by (simp_all add: distributor_neg_def announceTask_def distributor0_def emit_def task_neg_def
      task1_def)

lemma low_state:
  "taskQueue distributor_low ''t1'' = Some task_free"
  "agentBids distributor_low ''t1'' = Some bids_low"
  "agentProfiles distributor_low = Map.empty"
  "events distributor_low = [TaskAnnounced task_free]"
  "minAgents task_free = Some 1" "maxAgents task_free = Some 3"
  by (simp_all add: distributor_low_def announceTask_def distributor0_def emit_def task_free_def
      task1_def)

theorem assignment_created_counterexample:
  "taskQueue distributor_neg ''t1'' = Some task_neg
   \<and> agentBids distributor_neg ''t1'' = Some three_bids \<and> three_bids \<noteq> []
   \<and> minAgents task_neg = Some (- 1) \<and> maxAgents task_neg = Some (- 1)
   \<and> selectOptimalAgents (scoreBids stable_sorted Map.empty 0 three_bids task_neg) (- 1) (- 1) = []
   \<and> fst (evaluateBidsAndAssign stable_sorted distributor_neg 0 True ''t1'') = None
   \<and> events (snd (evaluateBidsAndAssign stable_sorted distributor_neg 0 True ''t1''))
     = [TaskAnnounced task_neg, TaskAssignmentFailed ''t1'' ''No suitable agents found'']
   \<and> activeAssignments (snd (evaluateBidsAndAssign stable_sorted distributor_neg 0 True ''t1''))
       ''t1'' = None
   \<and> taskQueue distributor_low ''t1'' = Some task_free
   \<and> agentBids distributor_low ''t1'' = Some bids_low
   \<and> map_option assignedAgents
       (activeAssignments (snd (evaluateBidsAndAssign stable_sorted distributor_low 0 True ''t1''))
          ''t1'')
     = Some [''Y'']
   \<and> scoreBid Map.empty 0 task_free (bid_of ''Y'' 50 (1 / 2)) = Num (6499 / 10000)
   \<and> scoreBid Map.empty 0 task_free (bid_of ''W'' 60 (1 / 2)) = Num (6899 / 10000)"
proof -
  have n: "selectOptimalAgents xs (- 1) (- 1) = []" for xs :: "ScoredBid list"
    by (cases xs) (simp_all add: selectOptimalAgents_def)
  have "three_bids \<noteq> []"
    by (simp add: three_bids_def)
  from evaluateBidsAndAssign_queued [OF neg_state(1,2) this, of stable_sorted 0 True]
  have "evaluateBidsAndAssign stable_sorted distributor_neg 0 True ''t1''
          = (None, distributor_neg\<lparr>events := events distributor_neg
               @ [TaskAssignmentFailed ''t1'' ''No suitable agents found'']\<rparr>)"
    by (simp add: Let_def or_default_def n neg_state)
  moreover have s: "map agentId
      (selectOptimalAgents (scoreBids stable_sorted Map.empty 0 bids_low task_free) 1 3) = [''Y'']"
    by (simp add: low_sorted selectOptimalAgents_def low_scores)
  have "bids_low \<noteq> []"
    by (simp add: bids_low_def)
  from evaluateBidsAndAssign_queued [OF low_state(1,2) this, of stable_sorted 0 True] s
  have "map_option assignedAgents
       (activeAssignments (snd (evaluateBidsAndAssign stable_sorted distributor_low 0 True ''t1''))
          ''t1'') = Some [''Y'']"
    by (auto simp: Let_def or_default_def low_state split: if_splits)
  ultimately show ?thesis
    by (simp add: neg_state low_state low_scores n three_bids_def)
qed

end
